theory Spec2Isabelle
  imports Complex_Main
begin

unbundle bit_operations_syntax

section \<open>Data model\<close>

text \<open>
  A C++ \<open>float\<close> is a \<open>real\<close>: the field values, the positions and the normals are
  computed without rounding, and there is no NaN and no infinity. The one float
  expression that decides the size of the grid, \<open>boundingBox.x / mCubeSize + 1\<close>, is rounded
  to single precision (\<open>fl\<close>) after the division and after the addition, as the source
  computes it. A C++ \<open>int\<close> has 32 bits: sums and products of \<open>int\<close>s wrap around
  (\<open>int32\<close>). A division by zero, which gives an infinity or a NaN in floats, is outside
  the model: it takes a node of radius 0, or a crossed edge whose two values add up to 0.
  The runs evaluated below never divide by zero.
\<close>

datatype Vector3 = Vector3 (vx: real) (vy: real) (vz: real)

fun vadd :: "Vector3 \<Rightarrow> Vector3 \<Rightarrow> Vector3" where
  "vadd (Vector3 a b c) (Vector3 a' b' c') = Vector3 (a + a') (b + b') (c + c')"

fun vsub :: "Vector3 \<Rightarrow> Vector3 \<Rightarrow> Vector3" where
  "vsub (Vector3 a b c) (Vector3 a' b' c') = Vector3 (a - a') (b - b') (c - c')"

fun vscale :: "real \<Rightarrow> Vector3 \<Rightarrow> Vector3" where
  "vscale k (Vector3 a b c) = Vector3 (k * a) (k * b) (k * c)"

definition vlength :: "Vector3 \<Rightarrow> real" where
  "vlength v = sqrt (vx v * vx v + vy v * vy v + vz v * vz v)"

text \<open>
  \<open>Ogre::Vector3::normalise\<close> belongs to the rendering engine, not to this repository:
  it divides the vector by its length when the length is positive and leaves the zero
  vector as it is.
\<close>

definition normalise :: "Vector3 \<Rightarrow> Vector3" where
  "normalise v =
     (let fLength = vlength v
      in if fLength > 0 then vscale (1 / fLength) v else v)"

text \<open>
  A skeleton node is a polymorphic object: the virtual \<open>getDistanceTo\<close> is a field
  holding the variant's distance function.
\<close>

record SkeletonNode =
  radius :: real
  extendsFrom :: Vector3
  extendsTo :: Vector3
  getDistanceTo :: "Vector3 \<Rightarrow> real"

text \<open>
  Modelled from the spec: the class \<open>SphereNode\<close>, whose source is not part of the
  sources verified here.
  For the sphere variant with centre \<open>c\<close> and radius \<open>r\<close> the extents are \<open>c - r\<close> and
  \<open>c + r\<close> and the distance is the Euclidean distance to the centre.
\<close>

definition SphereNode :: "Vector3 \<Rightarrow> real \<Rightarrow> SkeletonNode" where
  "SphereNode c r =
     \<lparr> radius = r,
       extendsFrom = vsub c (Vector3 r r r),
       extendsTo = vadd c (Vector3 r r r),
       getDistanceTo = (\<lambda>p. vlength (vsub p c)) \<rparr>"

datatype error = AssertionFailed | OutOfRange | Uninitialised | LengthError

subsection \<open>Machine numbers\<close>

text \<open>
  The value of a 32-bit signed \<open>int\<close> expression whose exact value is \<open>n\<close>: the
  representative of \<open>n\<close> modulo \<open>2\<^sup>3\<^sup>2\<close> between \<open>-2\<^sup>3\<^sup>1\<close> and \<open>2\<^sup>3\<^sup>1 - 1\<close>.
\<close>

definition int32 :: "int \<Rightarrow> int" where
  "int32 n = (n + 2147483648) mod 4294967296 - 2147483648"

text \<open>The nearest integer, a tie going to the even neighbour.\<close>

definition round_to_even :: "real \<Rightarrow> int" where
  "round_to_even x =
     (let n = \<lfloor>x\<rfloor>
      in if x - of_int n < 1 / 2 then n
         else if 1 / 2 < x - of_int n then n + 1
         else if even n then n else n + 1)"

text \<open>
  Rounding to the nearest single-precision float (24 significant bits, ties to even,
  smallest exponent \<open>-126\<close>). A value beyond the largest float stays a large real where
  the float is an infinity.
\<close>

definition fl :: "real \<Rightarrow> real" where
  "fl x =
     (if x = 0 then 0
      else (let e = max (- 126) \<lfloor>log 2 \<bar>x\<bar>\<rfloor>;
                ulp = 2 powr (of_int e - 23)
            in of_int (round_to_even (x / ulp)) * ulp))"

section \<open>Scalar field evaluator\<close>

text \<open>
  \<open>Isosurface::IsoValue\<close>. The loop body ends in an unconditional \<open>break\<close>, so the
  recursion stops after the first node: the tail of the skeleton is never visited.
\<close>

fun IsoValue_loop :: "SkeletonNode list \<Rightarrow> Vector3 \<Rightarrow> real \<Rightarrow> real" where
  "IsoValue_loop [] pos potential = potential"
| "IsoValue_loop (node # rest) pos potential =
     (let d = radius node * 10;
          r = getDistanceTo node pos / radius node
      in if r \<le> 1
         then potential + (r ^ 4 - 2 * r * r + 1) / (1 + d * r * r)
         else potential)"

definition IsoValue :: "SkeletonNode list \<Rightarrow> Vector3 \<Rightarrow> real" where
  "IsoValue skeleton pos = IsoValue_loop skeleton pos 0"

text \<open>The evaluator as the specification words it: every node adds its kernel.\<close>

definition kernel :: "SkeletonNode \<Rightarrow> Vector3 \<Rightarrow> real" where
  "kernel node p =
     (let r = getDistanceTo node p / radius node;
          d = 10 * radius node
      in if r \<le> 1 then (r ^ 4 - 2 * r\<^sup>2 + 1) / (1 + d * r\<^sup>2) else 0)"

definition IsoValue_summed :: "SkeletonNode list \<Rightarrow> Vector3 \<Rightarrow> real" where
  "IsoValue_summed skeleton p = (\<Sum>node \<leftarrow> skeleton. kernel node p)"


section \<open>Normals\<close>

text \<open>
  \<open>Isosurface::getNormal\<close>; the member reads \<open>mSkeleton\<close> (through \<open>IsoValue\<close>) and
  \<open>mCubeSize\<close>, which are passed here. The sample \<open>iso_z1\<close> is taken at
  \<open>(x, z, z - mCubeSize)\<close>, as the source has it.
\<close>

definition getNormal :: "SkeletonNode list \<Rightarrow> real \<Rightarrow> Vector3 \<Rightarrow> Vector3" where
  "getNormal skeleton cubeSize vertex =
     (let iso_x1 = IsoValue skeleton (Vector3 (vx vertex - cubeSize) (vy vertex) (vz vertex));
          iso_x2 = IsoValue skeleton (Vector3 (vx vertex + cubeSize) (vy vertex) (vz vertex));
          iso_y1 = IsoValue skeleton (Vector3 (vx vertex) (vy vertex - cubeSize) (vz vertex));
          iso_y2 = IsoValue skeleton (Vector3 (vx vertex) (vy vertex + cubeSize) (vz vertex));
          iso_z1 = IsoValue skeleton (Vector3 (vx vertex) (vz vertex) (vz vertex - cubeSize));
          iso_z2 = IsoValue skeleton (Vector3 (vx vertex) (vy vertex) (vz vertex + cubeSize))
      in normalise (Vector3 (iso_x1 - iso_x2) (iso_y1 - iso_y2) (iso_z1 - iso_z2)))"

text \<open>
  The normal as the specification words it: the normalised negated central difference of
  \<open>IsoValue\<close> along each axis with step \<open>h\<close>.
\<close>

definition central_difference_normal :: "SkeletonNode list \<Rightarrow> real \<Rightarrow> Vector3 \<Rightarrow> Vector3" where
  "central_difference_normal skeleton h v =
     normalise (Vector3
       (IsoValue skeleton (Vector3 (vx v - h) (vy v) (vz v))
          - IsoValue skeleton (Vector3 (vx v + h) (vy v) (vz v)))
       (IsoValue skeleton (Vector3 (vx v) (vy v - h) (vz v))
          - IsoValue skeleton (Vector3 (vx v) (vy v + h) (vz v)))
       (IsoValue skeleton (Vector3 (vx v) (vy v) (vz v - h))
          - IsoValue skeleton (Vector3 (vx v) (vy v) (vz v + h))))"

section \<open>The extractor\<close>

text \<open>
  The header \<open>Isosurface.h\<close> is not part of the sources verified here, so its lookup tables are
  parameters: \<open>cubeOffsets[8][3]\<close>, \<open>a2iEdgeConnection[12][2]\<close>, \<open>aiCubeEdgeFlags[256]\<close> and
  \<open>a2iTriangleConnectionTable[256][16]\<close>, each a function of its indices. Every index the
  code passes is within the declared bounds by construction (loop counters and an
  eight-bit mask). \<open>a2fEdgeDirection\<close> is read by \<open>Triangulate\<close> but the value is never
  used.
\<close>

record Tables =
  cubeOffsets :: "nat \<Rightarrow> nat \<Rightarrow> int"
  a2iEdgeConnection :: "nat \<Rightarrow> nat \<Rightarrow> int"
  aiCubeEdgeFlags :: "nat \<Rightarrow> int"
  a2iTriangleConnectionTable :: "nat \<Rightarrow> nat \<Rightarrow> int"

type_synonym Triangle = "Vector3 list"

type_synonym IndexedTriangle = "int list"

text \<open>
  Modelled from the spec: the struct \<open>Cell\<close> of \<open>Isosurface.h\<close>. The arrays \<open>p[8]\<close> and
  \<open>val[8]\<close> are the lists \<open>cell_p\<close> and \<open>cell_val\<close>, filled in the order of the corner loop; \<open>iFlagIndex\<close> starts at zero, so that bit \<open>i\<close> is set
  exactly when \<open>val[i]\<close> is at most the target value.
\<close>

record Cell =
  cell_p :: "Vector3 list"
  cell_val :: "real list"
  iFlagIndex :: int
  iEdgeFlags :: int

text \<open>
  The extractor object. Modelled from the spec: \<open>VertexKey\<close> and the type of
  \<open>mVertexHash\<close> are declared in \<open>Isosurface.h\<close>; a key is a vertex position, two keys are
  equal when their three coordinates are, and the map takes a key to its vertex index.
\<close>

record Isosurface =
  mSkeleton :: "SkeletonNode list"
  mCubeSize :: real
  mBlendingFunction :: int
  mTargetValue :: real
  mVertices :: "Vector3 list"
  mNormals :: "Vector3 list"
  mTriangles :: "IndexedTriangle list"
  mVertexHash :: "Vector3 \<rightharpoonup> int"
  mExtendsFrom :: Vector3
  mExtendsTo :: Vector3

definition FLT_MAX :: real where
  "FLT_MAX = 340282346638528859811704183484516925440"

text \<open>
  Conversion of a float to an \<open>int\<close> truncates towards zero. A value outside the range of
  \<open>int\<close> (an infinity included) has no defined result in C++; the conversion instruction
  of the x86 processors returns \<open>-2\<^sup>3\<^sup>1\<close>, and so does the model.
\<close>

definition float_to_int :: "real \<Rightarrow> int" where
  "float_to_int r =
     (let n = (if 0 \<le> r then \<lfloor>r\<rfloor> else \<lceil>r\<rceil>)
      in if - 2147483648 \<le> n \<and> n < 2147483648 then n else - 2147483648)"

text \<open>
  The initialiser \<open>boundingBox.x / mCubeSize + 1\<close> of \<open>xAmount\<close> (likewise \<open>yAmount\<close>,
  \<open>zAmount\<close>): a float division, a float addition, and the conversion to \<open>int\<close>.
\<close>

definition gridAmount :: "real \<Rightarrow> real \<Rightarrow> int" where
  "gridAmount extent cubeSize = float_to_int (fl (fl (extent / cubeSize) + 1))"

text \<open>
  The \<open>int\<close> expression \<open>(xAmount + 1)*(yAmount + 1)*(zAmount + 1)\<close>, the size asked of the
  vector \<open>scalarField\<close>.
\<close>

definition fieldSize :: "int \<Rightarrow> int \<Rightarrow> int \<Rightarrow> int" where
  "fieldSize xAmount yAmount zAmount =
     int32 (int32 (int32 (xAmount + 1) * int32 (yAmount + 1)) * int32 (zAmount + 1))"

text \<open>A counting loop whose body may fail: the first failure ends the run.\<close>

fun for_each :: "'i list \<Rightarrow> ('i \<Rightarrow> 's \<Rightarrow> error + 's) \<Rightarrow> 's \<Rightarrow> error + 's" where
  "for_each [] body s = Inr s"
| "for_each (i # rest) body s =
     (case body i s of Inl e \<Rightarrow> Inl e | Inr s' \<Rightarrow> for_each rest body s')"

text \<open>
  \<open>getMapIndex\<close>: the expression \<open>z*width*height + y*width + x\<close> on 32-bit \<open>int\<close>s, each
  product and each sum wrapping around (an overflow of a signed \<open>int\<close> is undefined in
  C++; the machine instructions wrap). \<open>depth\<close> is not used.
\<close>

fun getMapIndex :: "int \<Rightarrow> int \<Rightarrow> int \<Rightarrow> int \<Rightarrow> int \<Rightarrow> int \<Rightarrow> int" where
  "getMapIndex x y z width height depth =
     int32 (int32 (int32 (int32 (z * width) * height) + int32 (y * width)) + x)"

subsection \<open>Scalar field\<close>

text \<open>
  The body of the innermost loop of \<open>fillScalarField\<close>: the assertion that the slot still
  holds the marker \<open>-1\<close>, then the write. An index outside the vector is an error of the
  model.
\<close>

definition fillSlot ::
  "SkeletonNode list \<Rightarrow> Vector3 \<Rightarrow> real \<Rightarrow> int \<Rightarrow> int \<Rightarrow> int \<Rightarrow> nat \<Rightarrow> nat \<Rightarrow> nat
     \<Rightarrow> real list \<Rightarrow> error + real list" where
  "fillSlot skeleton from cubeSize xAmount yAmount zAmount z y x scalarField =
     (let coords = Vector3 (vx from + real x * cubeSize)
                           (vy from + real y * cubeSize)
                           (vz from + real z * cubeSize);
          index = getMapIndex (int x) (int y) (int z)
                    (int32 (xAmount + 1)) (int32 (yAmount + 1)) (int32 (zAmount + 1))
      in if index < 0 \<or> int (length scalarField) \<le> index then Inl OutOfRange
         else if scalarField ! nat index \<noteq> -1 then Inl AssertionFailed
         else Inr (scalarField[nat index := IsoValue skeleton coords]))"

definition fillScalarField ::
  "SkeletonNode list \<Rightarrow> Vector3 \<Rightarrow> real \<Rightarrow> real list \<Rightarrow> int \<Rightarrow> int \<Rightarrow> int
     \<Rightarrow> error + real list" where
  "fillScalarField skeleton from cubeSize scalarField xAmount yAmount zAmount =
     for_each [0..<nat (int32 (zAmount + 1))] (\<lambda>z.
       for_each [0..<nat (int32 (yAmount + 1))] (\<lambda>y.
         for_each [0..<nat (int32 (xAmount + 1))] (\<lambda>x.
           fillSlot skeleton from cubeSize xAmount yAmount zAmount z y x))) scalarField"

subsection \<open>Triangulate\<close>

text \<open>
  The first loop of \<open>Triangulate\<close>. \<open>asEdgeVertex\<close> starts with twelve slots that hold
  nothing (\<open>None\<close>); the slot of an edge is written when its bit is set in \<open>iEdgeFlags\<close>.
\<close>

definition edgeStep :: "Tables \<Rightarrow> Cell \<Rightarrow> nat \<Rightarrow> Vector3 option list \<Rightarrow> error + Vector3 option list" where
  "edgeStep T cell iEdge asEdgeVertex =
     (if (iEdgeFlags cell AND push_bit iEdge 1) \<noteq> 0 then
        (let p1 = a2iEdgeConnection T iEdge 0;
             p2 = a2iEdgeConnection T iEdge 1
         in if p1 < 0 \<or> 8 \<le> p1 \<or> p2 < 0 \<or> 8 \<le> p2 then Inl OutOfRange
            else
              (let length = cell_val cell ! nat p1 / (cell_val cell ! nat p2 + cell_val cell ! nat p1)
               in Inr (asEdgeVertex[iEdge :=
                    Some (vadd (cell_p cell ! nat p1)
                            (vscale length (vsub (cell_p cell ! nat p2) (cell_p cell ! nat p1))))])))
      else Inr asEdgeVertex)"

definition edgeVertices :: "Tables \<Rightarrow> Cell \<Rightarrow> error + Vector3 option list" where
  "edgeVertices T cell = for_each [0..<12] (edgeStep T cell) (replicate 12 None)"

text \<open>
  One corner of a triangle: \<open>triangles[iTriangle].p[iCorner] = asEdgeVertex[iVertex]\<close>.
  Reading a slot outside the array, or one that was never written, is an error of the
  model.
\<close>

definition cornerStep ::
  "Tables \<Rightarrow> Cell \<Rightarrow> Vector3 option list \<Rightarrow> nat \<Rightarrow> nat \<Rightarrow> Triangle \<Rightarrow> error + Triangle" where
  "cornerStep T cell asEdgeVertex iTriangle iCorner tri =
     (let iVertex = a2iTriangleConnectionTable T (nat (iFlagIndex cell)) (3 * iTriangle + iCorner)
      in if iVertex < 0 \<or> 12 \<le> iVertex then Inl OutOfRange
         else (case asEdgeVertex ! nat iVertex of
                 None \<Rightarrow> Inl Uninitialised
               | Some v \<Rightarrow> Inr (tri @ [v])))"

text \<open>
  The second loop of \<open>Triangulate\<close> over \<open>iTriangle = 0, ..., 4\<close>; a negative first entry
  of a triple leaves the loop. The list returned holds \<open>nTriangles\<close> triangles.
\<close>

fun triangleLoop ::
  "Tables \<Rightarrow> Cell \<Rightarrow> Vector3 option list \<Rightarrow> nat list \<Rightarrow> Triangle list \<Rightarrow> error + Triangle list" where
  "triangleLoop T cell asEdgeVertex [] triangles = Inr triangles"
| "triangleLoop T cell asEdgeVertex (iTriangle # rest) triangles =
     (if a2iTriangleConnectionTable T (nat (iFlagIndex cell)) (3 * iTriangle) < 0
      then Inr triangles
      else (case for_each [0..<3] (cornerStep T cell asEdgeVertex iTriangle) [] of
              Inl e \<Rightarrow> Inl e
            | Inr tri \<Rightarrow> triangleLoop T cell asEdgeVertex rest (triangles @ [tri])))"

definition Triangulate :: "Tables \<Rightarrow> Cell \<Rightarrow> error + Triangle list" where
  "Triangulate T cell0 =
     (let cell = cell0\<lparr>iEdgeFlags := aiCubeEdgeFlags T (nat (iFlagIndex cell0))\<rparr>
      in if iEdgeFlags cell = 0 then Inr []
         else (case edgeVertices T cell of
                 Inl e \<Rightarrow> Inl e
               | Inr asEdgeVertex \<Rightarrow> triangleLoop T cell asEdgeVertex [0..<5] []))"

subsection \<open>Marching the cells\<close>

text \<open>The corner loop of a cell; \<open>scalarField.at(index)\<close> throws outside the vector.\<close>

definition cornerOfCell ::
  "Tables \<Rightarrow> Isosurface \<Rightarrow> real list \<Rightarrow> int \<Rightarrow> int \<Rightarrow> int \<Rightarrow> nat \<Rightarrow> nat \<Rightarrow> nat \<Rightarrow> nat
     \<Rightarrow> Cell \<Rightarrow> error + Cell" where
  "cornerOfCell T st scalarField xAmount yAmount zAmount z y x i cell =
     (let cx = int32 (int x + cubeOffsets T i 0);
          cy = int32 (int y + cubeOffsets T i 1);
          cz = int32 (int z + cubeOffsets T i 2);
          index = getMapIndex cx cy cz
                    (int32 (xAmount + 1)) (int32 (yAmount + 1)) (int32 (zAmount + 1));
          pos = Vector3 (vx (mExtendsFrom st) + mCubeSize st * real_of_int cx)
                        (vy (mExtendsFrom st) + mCubeSize st * real_of_int cy)
                        (vz (mExtendsFrom st) + mCubeSize st * real_of_int cz)
      in if index < 0 \<or> int (length scalarField) \<le> index then Inl OutOfRange
         else
           (let v = scalarField ! nat index
            in Inr (cell\<lparr> cell_p := cell_p cell @ [pos],
                          cell_val := cell_val cell @ [v],
                          iFlagIndex := (if v \<le> mTargetValue st
                                         then iFlagIndex cell OR push_bit i 1
                                         else iFlagIndex cell) \<rparr>)))"

definition makeCell ::
  "Tables \<Rightarrow> Isosurface \<Rightarrow> real list \<Rightarrow> int \<Rightarrow> int \<Rightarrow> int \<Rightarrow> nat \<Rightarrow> nat \<Rightarrow> nat \<Rightarrow> error + Cell" where
  "makeCell T st scalarField xAmount yAmount zAmount z y x =
     for_each [0..<8] (cornerOfCell T st scalarField xAmount yAmount zAmount z y x)
       \<lparr> cell_p = [], cell_val = [], iFlagIndex = 0, iEdgeFlags = 0 \<rparr>"

text \<open>
  One corner of one triangle goes to the vertex buffer: a position that is not yet a key
  of \<open>mVertexHash\<close> gets the next index, is appended to \<open>mVertices\<close> and its normal to
  \<open>mNormals\<close>; a known position reuses the stored index. The state of the loops is the
  object together with \<open>iVertexIndex\<close>.
\<close>

definition addCorner ::
  "Vector3 \<Rightarrow> (Isosurface \<times> int) \<times> IndexedTriangle \<Rightarrow> (Isosurface \<times> int) \<times> IndexedTriangle" where
  "addCorner v s =
     (case s of ((st, iVertexIndex), indexedTriangle) \<Rightarrow>
        (case mVertexHash st v of
           None \<Rightarrow>
             ((st\<lparr> mVertexHash := (mVertexHash st)(v \<mapsto> iVertexIndex),
                   mVertices := mVertices st @ [v],
                   mNormals := mNormals st @ [getNormal (mSkeleton st) (mCubeSize st) v] \<rparr>,
               iVertexIndex + 1),
              indexedTriangle @ [iVertexIndex])
         | Some currentVertexIndex \<Rightarrow>
             ((st, iVertexIndex), indexedTriangle @ [currentVertexIndex])))"

definition addTriangle :: "Triangle \<Rightarrow> Isosurface \<times> int \<Rightarrow> Isosurface \<times> int" where
  "addTriangle tri s =
     (case foldl (\<lambda>acc v. addCorner v acc) (s, []) tri of
        ((st, iVertexIndex), indexedTriangle) \<Rightarrow>
          (st\<lparr> mTriangles := mTriangles st @ [indexedTriangle] \<rparr>, iVertexIndex))"

definition marchCell ::
  "Tables \<Rightarrow> real list \<Rightarrow> int \<Rightarrow> int \<Rightarrow> int \<Rightarrow> nat \<Rightarrow> nat \<Rightarrow> nat
     \<Rightarrow> Isosurface \<times> int \<Rightarrow> error + Isosurface \<times> int" where
  "marchCell T scalarField xAmount yAmount zAmount z y x s =
     (case makeCell T (fst s) scalarField xAmount yAmount zAmount z y x of
        Inl e \<Rightarrow> Inl e
      | Inr cell \<Rightarrow>
          (case Triangulate T cell of
             Inl e \<Rightarrow> Inl e
           | Inr triangles \<Rightarrow> Inr (foldl (\<lambda>acc tri. addTriangle tri acc) s triangles)))"

definition marchCubes ::
  "Tables \<Rightarrow> real list \<Rightarrow> int \<Rightarrow> int \<Rightarrow> int \<Rightarrow> Isosurface \<times> int \<Rightarrow> error + Isosurface \<times> int" where
  "marchCubes T scalarField xAmount yAmount zAmount =
     for_each [0..<nat zAmount] (\<lambda>z.
       for_each [0..<nat yAmount] (\<lambda>y.
         for_each [0..<nat xAmount] (\<lambda>x.
           marchCell T scalarField xAmount yAmount zAmount z y x)))"

text \<open>
  \<open>Isosurface::generateObject\<close>. A negative size makes the constructor of the vector
  throw \<open>std::length_error\<close>.
\<close>

definition generateObject :: "Tables \<Rightarrow> Isosurface \<Rightarrow> error + Isosurface" where
  "generateObject T st =
     (let boundingBox = vsub (mExtendsTo st) (mExtendsFrom st)
      in if vx boundingBox > mCubeSize st
            \<and> vy boundingBox > mCubeSize st
            \<and> vz boundingBox > mCubeSize st
         then
           (let xAmount = gridAmount (vx boundingBox) (mCubeSize st);
                yAmount = gridAmount (vy boundingBox) (mCubeSize st);
                zAmount = gridAmount (vz boundingBox) (mCubeSize st)
            in if fieldSize xAmount yAmount zAmount < 0 then Inl LengthError
               else
                 (let scalarField = replicate (nat (fieldSize xAmount yAmount zAmount)) (-1)
                  in case fillScalarField (mSkeleton st) (mExtendsFrom st) (mCubeSize st)
                            scalarField xAmount yAmount zAmount of
                       Inl e \<Rightarrow> Inl e
                     | Inr scalarField' \<Rightarrow>
                         (case marchCubes T scalarField' xAmount yAmount zAmount (st, 0) of
                            Inl e \<Rightarrow> Inl e
                          | Inr s \<Rightarrow> Inr (fst s))))
         else Inr st)"

subsection \<open>calculate and update\<close>

text \<open>The six comparisons of the bounding-box loop for one node.\<close>

definition extendBox :: "Isosurface \<Rightarrow> SkeletonNode \<Rightarrow> Isosurface" where
  "extendBox st node =
     st\<lparr> mExtendsTo := Vector3
            (if vx (extendsTo node) > vx (mExtendsTo st) then vx (extendsTo node) else vx (mExtendsTo st))
            (if vy (extendsTo node) > vy (mExtendsTo st) then vy (extendsTo node) else vy (mExtendsTo st))
            (if vz (extendsTo node) > vz (mExtendsTo st) then vz (extendsTo node) else vz (mExtendsTo st)),
         mExtendsFrom := Vector3
            (if vx (extendsFrom node) < vx (mExtendsFrom st) then vx (extendsFrom node) else vx (mExtendsFrom st))
            (if vy (extendsFrom node) < vy (mExtendsFrom st) then vy (extendsFrom node) else vy (mExtendsFrom st))
            (if vz (extendsFrom node) < vz (mExtendsFrom st) then vz (extendsFrom node) else vz (mExtendsFrom st)) \<rparr>"

text \<open>
  \<open>Isosurface::calculate\<close>. The enumeration \<open>BlendingFunction\<close> is declared in
  \<open>Isosurface.h\<close>: a blending function is its integer value, \<open>SPORE\<close> is 0, and the value of
  the last enumerator \<open>NONE\<close>, a natural number, is a parameter.
\<close>

definition calculate ::
  "nat \<Rightarrow> Tables \<Rightarrow> SkeletonNode list \<Rightarrow> real \<Rightarrow> int \<Rightarrow> real \<Rightarrow> Isosurface \<Rightarrow> error + Isosurface" where
  "calculate NONE T skeleton cubeSize blend targetValue st0 =
     (let st = st0\<lparr> mSkeleton := skeleton,
                    mCubeSize := cubeSize,
                    mBlendingFunction := blend,
                    mTargetValue := targetValue,
                    mVertices := [],
                    mNormals := [],
                    mTriangles := [],
                    mVertexHash := Map.empty,
                    mExtendsFrom := Vector3 FLT_MAX FLT_MAX FLT_MAX,
                    mExtendsTo := Vector3 (- FLT_MAX) (- FLT_MAX) (- FLT_MAX) \<rparr>
      in if \<not> mCubeSize st > 0 then Inl AssertionFailed
         else if \<not> (mBlendingFunction st \<ge> 0 \<and> mBlendingFunction st \<le> int NONE) then Inl AssertionFailed
         else if length (mSkeleton st) > 0
              then generateObject T (foldl extendBox st (mSkeleton st))
              else Inr st)"

text \<open>\<open>Isosurface::update\<close>: only the skeleton, the vertices and the normals are reset.\<close>

definition update :: "Tables \<Rightarrow> SkeletonNode list \<Rightarrow> Isosurface \<Rightarrow> error + Isosurface" where
  "update T skeleton st =
     generateObject T (st\<lparr> mSkeleton := skeleton, mVertices := [], mNormals := [] \<rparr>)"


section \<open>Reference notions\<close>

text \<open>
  The rows of the lookup tables that the runs below consult, as in the classic Marching
  Cubes tables: the corner offsets and the edge connections; the edge flags and the
  triangle rows of the classifications in which no corner, every corner, or every corner
  but one is flagged (a single triangle on the three edges that meet in that corner; the
  order of its three entries fixes the winding only). All other rows of the two 256-row
  tables are left open: they are the parameters \<open>otherFlags\<close> and \<open>otherTriangles\<close>.
\<close>

definition classicTables :: "(nat \<Rightarrow> int) \<Rightarrow> (nat \<Rightarrow> nat \<Rightarrow> int) \<Rightarrow> Tables" where
  "classicTables otherFlags otherTriangles =
     \<lparr> cubeOffsets = (\<lambda>i j.
         [[0,0,0],[1,0,0],[1,1,0],[0,1,0],[0,0,1],[1,0,1],[1,1,1],[0,1,1]] ! i ! j),
       a2iEdgeConnection = (\<lambda>e j.
         [[0,1],[1,2],[2,3],[3,0],[4,5],[5,6],[6,7],[7,4],[0,4],[1,5],[2,6],[3,7]] ! e ! j),
       aiCubeEdgeFlags = (\<lambda>f.
         if f = 0 \<or> f = 255 then 0
         else if f = 254 then 265 else if f = 253 then 515
         else if f = 251 then 1030 else if f = 247 then 2060
         else if f = 239 then 400 else if f = 223 then 560
         else if f = 191 then 1120 else if f = 127 then 2240
         else otherFlags f),
       a2iTriangleConnectionTable = (\<lambda>f k.
         if f = 0 \<or> f = 255 then -1
         else if f = 254 then ([0, 3, 8] @ replicate 13 (-1)) ! k
         else if f = 253 then ([0, 9, 1] @ replicate 13 (-1)) ! k
         else if f = 251 then ([1, 10, 2] @ replicate 13 (-1)) ! k
         else if f = 247 then ([2, 11, 3] @ replicate 13 (-1)) ! k
         else if f = 239 then ([4, 8, 7] @ replicate 13 (-1)) ! k
         else if f = 223 then ([4, 5, 9] @ replicate 13 (-1)) ! k
         else if f = 191 then ([5, 6, 10] @ replicate 13 (-1)) ! k
         else if f = 127 then ([6, 7, 11] @ replicate 13 (-1)) ! k
         else otherTriangles f k) \<rparr>"

text \<open>
  The invariant of a mesh: as many normals as vertices, every index of every triangle
  within the vertex array, no position twice.
\<close>

definition mesh_ok :: "Isosurface \<Rightarrow> bool" where
  "mesh_ok st =
     (length (mNormals st) = length (mVertices st)
      \<and> list_all (list_all (\<lambda>i. 0 \<le> i \<and> i < int (length (mVertices st)))) (mTriangles st)
      \<and> distinct (mVertices st))"

text \<open>An extractor object before its first use.\<close>

definition freshIsosurface :: Isosurface where
  "freshIsosurface =
     \<lparr> mSkeleton = [], mCubeSize = 0, mBlendingFunction = 0, mTargetValue = 0,
       mVertices = [], mNormals = [], mTriangles = [], mVertexHash = Map.empty,
       mExtendsFrom = Vector3 0 0 0, mExtendsTo = Vector3 0 0 0 \<rparr>"

text \<open>
  The union of the nodes' bounding boxes as the specification has it: the largest upper
  and the smallest lower extent on each axis.
\<close>

definition unionExtendsTo :: "SkeletonNode list \<Rightarrow> Vector3" where
  "unionExtendsTo skeleton =
     Vector3 (Max (set (map (\<lambda>node. vx (extendsTo node)) skeleton)))
             (Max (set (map (\<lambda>node. vy (extendsTo node)) skeleton)))
             (Max (set (map (\<lambda>node. vz (extendsTo node)) skeleton)))"

definition unionExtendsFrom :: "SkeletonNode list \<Rightarrow> Vector3" where
  "unionExtendsFrom skeleton =
     Vector3 (Min (set (map (\<lambda>node. vx (extendsFrom node)) skeleton)))
             (Min (set (map (\<lambda>node. vy (extendsFrom node)) skeleton)))
             (Min (set (map (\<lambda>node. vz (extendsFrom node)) skeleton)))"

text \<open>The coordinates of a float vector lie within the range of finite floats.\<close>

definition float_range :: "Vector3 \<Rightarrow> bool" where
  "float_range v =
     (\<bar>vx v\<bar> \<le> FLT_MAX \<and> \<bar>vy v\<bar> \<le> FLT_MAX \<and> \<bar>vz v\<bar> \<le> FLT_MAX)"

definition float_extents :: "SkeletonNode list \<Rightarrow> bool" where
  "float_extents skeleton =
     list_all (\<lambda>node. float_range (extendsFrom node) \<and> float_range (extendsTo node)) skeleton"

text \<open>
  The corners of the grid in the order in which the three loops of \<open>fillScalarField\<close>
  visit them, as triples \<open>(z, y, x)\<close>, and the slot of the scalar field that belongs to
  a corner.
\<close>

definition gridCorners :: "int \<Rightarrow> int \<Rightarrow> int \<Rightarrow> (nat \<times> nat \<times> nat) list" where
  "gridCorners xAmount yAmount zAmount =
     concat (map (\<lambda>z. map (Pair z)
       (concat (map (\<lambda>y. map (Pair y) [0..<nat (xAmount + 1)]) [0..<nat (yAmount + 1)])))
       [0..<nat (zAmount + 1)])"

definition slotOf :: "int \<Rightarrow> int \<Rightarrow> int \<Rightarrow> nat \<times> nat \<times> nat \<Rightarrow> nat" where
  "slotOf xAmount yAmount zAmount c =
     (case c of (z, y, x) \<Rightarrow>
        nat (int z * (xAmount + 1) * (yAmount + 1) + int y * (xAmount + 1) + int x))"

text \<open>
  The grid of \<open>generateObject\<close> for a bounding box fits 32-bit \<open>int\<close>s: when every axis of
  the box exceeds \<open>cubeSize\<close> (no grid is built otherwise), none of the three conversions
  to \<open>int\<close> leaves the range and the number of corners is below \<open>2\<^sup>3\<^sup>1\<close>.
\<close>

definition grid_fits :: "real \<Rightarrow> Vector3 \<Rightarrow> bool" where
  "grid_fits cubeSize boundingBox =
     (if cubeSize < vx boundingBox \<and> cubeSize < vy boundingBox \<and> cubeSize < vz boundingBox
      then 0 \<le> gridAmount (vx boundingBox) cubeSize
           \<and> 0 \<le> gridAmount (vy boundingBox) cubeSize
           \<and> 0 \<le> gridAmount (vz boundingBox) cubeSize
           \<and> (gridAmount (vx boundingBox) cubeSize + 1)
               * (gridAmount (vy boundingBox) cubeSize + 1)
               * (gridAmount (vz boundingBox) cubeSize + 1) < 2147483648
      else True)"

text \<open>
  The bounding box that \<open>calculate\<close> hands to \<open>generateObject\<close>: the running box, started
  at \<open>\<plusminus>FLT_MAX\<close> and extended by every node.
\<close>

definition runningBox :: "SkeletonNode list \<Rightarrow> Vector3" where
  "runningBox skeleton =
     Vector3
       (foldl max (- FLT_MAX) (map (\<lambda>node. vx (extendsTo node)) skeleton)
          - foldl min FLT_MAX (map (\<lambda>node. vx (extendsFrom node)) skeleton))
       (foldl max (- FLT_MAX) (map (\<lambda>node. vy (extendsTo node)) skeleton)
          - foldl min FLT_MAX (map (\<lambda>node. vy (extendsFrom node)) skeleton))
       (foldl max (- FLT_MAX) (map (\<lambda>node. vz (extendsTo node)) skeleton)
          - foldl min FLT_MAX (map (\<lambda>node. vz (extendsFrom node)) skeleton))"

text \<open>The tables with every open row set to "no edge crossed, no triangle".\<close>

definition sampleTables :: Tables where
  "sampleTables = classicTables (\<lambda>f. 0) (\<lambda>f k. -1)"

text \<open>
  The crossing point of an edge as the specification has it: with \<open>p1\<close>, \<open>p2\<close> the two
  corners of the edge and \<open>t = val[p1] / (val[p1] + val[p2])\<close>, the point
  \<open>p[p1] + t \<cdot> (p[p2] - p[p1])\<close>.
\<close>

definition edgePoint :: "Tables \<Rightarrow> Cell \<Rightarrow> nat \<Rightarrow> Vector3" where
  "edgePoint T cell e =
     (let p1 = nat (a2iEdgeConnection T e 0);
          p2 = nat (a2iEdgeConnection T e 1);
          t = cell_val cell ! p1 / (cell_val cell ! p1 + cell_val cell ! p2)
      in vadd (cell_p cell ! p1) (vscale t (vsub (cell_p cell ! p2) (cell_p cell ! p1))))"

text \<open>
  The format of the tables that \<open>Triangulate\<close> relies on: an edge connects two of the
  corners \<open>0, \<dots>, 7\<close>; in the row of a classification a triple starts with the sentinel
  \<open>-1\<close> or holds three edges \<open>0, \<dots>, 11\<close> whose bits are set in the edge flags of that
  classification.
\<close>

definition edges_fit :: "Tables \<Rightarrow> bool" where
  "edges_fit T =
     list_all (\<lambda>e. 0 \<le> a2iEdgeConnection T e 0 \<and> a2iEdgeConnection T e 0 < 8
                  \<and> 0 \<le> a2iEdgeConnection T e 1 \<and> a2iEdgeConnection T e 1 < 8) [0..<12]"

definition triple_fits :: "Tables \<Rightarrow> nat \<Rightarrow> nat \<Rightarrow> bool" where
  "triple_fits T f i =
     (a2iTriangleConnectionTable T f (3 * i) = -1
      \<or> list_all (\<lambda>j. 0 \<le> a2iTriangleConnectionTable T f (3 * i + j)
                      \<and> a2iTriangleConnectionTable T f (3 * i + j) < 12
                      \<and> (aiCubeEdgeFlags T f
                            AND push_bit (nat (a2iTriangleConnectionTable T f (3 * i + j))) 1) \<noteq> 0)
           [0..<3])"

definition row_fits :: "Tables \<Rightarrow> nat \<Rightarrow> bool" where
  "row_fits T f = list_all (triple_fits T f) [0..<5]"

text \<open>
  What the loops of \<open>generateObject\<close> keep true of the object and \<open>iVertexIndex\<close> when
  they start from empty buffers: \<open>iVertexIndex\<close> counts the vertices, the keys of
  \<open>mVertexHash\<close> are the vertices, and the stored indices are indices of vertices.
\<close>

definition buffers_ok :: "Isosurface \<times> int \<Rightarrow> bool" where
  "buffers_ok s =
     (case s of (st, iVertexIndex) \<Rightarrow>
        iVertexIndex = int (length (mVertices st))
        \<and> length (mNormals st) = length (mVertices st)
        \<and> distinct (mVertices st)
        \<and> dom (mVertexHash st) = set (mVertices st)
        \<and> (\<forall>v i. mVertexHash st v = Some i \<longrightarrow> 0 \<le> i \<and> i < iVertexIndex)
        \<and> list_all (list_all (\<lambda>i. 0 \<le> i \<and> i < iVertexIndex)) (mTriangles st))"

section \<open>Properties of the evaluator\<close>

lemma IsoValue_first_only: "IsoValue (node # rest) pos = kernel node pos"
  by (simp add: IsoValue_def kernel_def Let_def power2_eq_square mult.assoc mult.commute)

lemma vlength_sq: "vlength v * vlength v = vx v * vx v + vy v * vy v + vz v * vz v"
  by (simp add: vlength_def)

lemma kernel_sphere:
  assumes "0 < rad"
  shows "kernel (SphereNode c rad) p =
     (let q = (vx p - vx c) * (vx p - vx c) + (vy p - vy c) * (vy p - vy c)
              + (vz p - vz c) * (vz p - vz c);
          s = q / (rad * rad)
      in if s \<le> 1 then (s * s - 2 * s + 1) / (1 + 10 * rad * s) else 0)"
proof -
  define q where "q = (vx p - vx c) * (vx p - vx c) + (vy p - vy c) * (vy p - vy c)
              + (vz p - vz c) * (vz p - vz c)"
  define r where "r = vlength (vsub p c) / rad"
  have q0: "0 \<le> q" by (simp add: q_def)
  have len: "vlength (vsub p c) = sqrt q"
    by (cases p; cases c) (simp add: vlength_def q_def)
  have r0: "0 \<le> r" using q0 assms by (simp add: r_def len)
  have r2: "r\<^sup>2 = q / (rad * rad)"
    by (simp add: r_def len power2_eq_square q0)
  have r4: "r ^ 4 = (q / (rad * rad)) * (q / (rad * rad))"
  proof -
    have "r ^ 4 = r\<^sup>2 * r\<^sup>2" by (simp add: power2_eq_square power4_eq_xxxx)
    then show ?thesis by (simp add: r2)
  qed
  have le: "r \<le> 1 \<longleftrightarrow> q / (rad * rad) \<le> 1"
  proof -
    have "r \<le> 1 \<longleftrightarrow> r\<^sup>2 \<le> 1"
      using r0 power2_le_iff_abs_le [of 1 r] by simp
    then show ?thesis by (simp add: r2)
  qed
  have "kernel (SphereNode c rad) p =
      (if r \<le> 1 then (r ^ 4 - 2 * r\<^sup>2 + 1) / (1 + 10 * rad * r\<^sup>2) else 0)"
    by (simp add: kernel_def SphereNode_def r_def Let_def)
  then show ?thesis
    unfolding le r4 r2 Let_def q_def by simp
qed

text \<open>
  C1. The claim: IsoValue is the sum of the kernel over all skeleton nodes. With two unit
  spheres at \<open>(0,0,0)\<close> and \<open>(10,0,0)\<close> and the position \<open>(10,0,0)\<close>, the centre of the
  second sphere, the code returns 0 (only the first node is looked at, and the position is
  outside its radius), where the sum over all nodes is 1.
\<close>

theorem IsoValue_ignores_second_node:
  "IsoValue [SphereNode (Vector3 0 0 0) 1, SphereNode (Vector3 10 0 0) 1] (Vector3 10 0 0) = 0
   \<and> IsoValue_summed [SphereNode (Vector3 0 0 0) 1, SphereNode (Vector3 10 0 0) 1]
        (Vector3 10 0 0) = 1"
  by (simp add: IsoValue_first_only IsoValue_summed_def kernel_sphere)

section \<open>Machine numbers\<close>

lemma int32_id: "- 2147483648 \<le> n \<Longrightarrow> n < 2147483648 \<Longrightarrow> int32 n = n"
  by (simp add: int32_def)

lemma floor_log2:
  assumes "2 ^ k \<le> x" and "x < 2 ^ Suc k"
  shows "\<lfloor>log 2 \<bar>x\<bar>\<rfloor> = int k"
proof -
  have "(0::real) < 2 ^ k" by simp
  then have pos: "0 < x" using assms(1) by linarith
  have "2 powr real k \<le> x" "x < 2 powr (real k + 1)"
    using assms by (simp_all add: powr_realpow powr_add)
  then have "real k \<le> log 2 x" "log 2 x < real k + 1"
    using pos by (simp_all add: le_log_iff log_less_iff)
  then have "\<lfloor>log 2 x\<rfloor> = int k"
    by (simp add: floor_eq_iff)
  then show ?thesis using pos by simp
qed

lemma fl_binade:
  assumes "2 ^ k \<le> x" and "x < 2 ^ Suc k" and "k \<le> 23"
  shows "fl x = of_int (round_to_even (x * 2 ^ (23 - k))) / 2 ^ (23 - k)"
proof -
  have "(0::real) < 2 ^ k" by simp
  then have pos: "x \<noteq> 0" using assms(1) by linarith
  have e: "max (- 126) \<lfloor>log 2 \<bar>x\<bar>\<rfloor> = int k"
    using floor_log2 [OF assms(1,2)] by simp
  have "real_of_int (int k) - 23 = - real (23 - k)"
    using assms(3) by simp
  then have "2 powr (real_of_int (int k) - 23) = 2 powr (- real (23 - k))"
    by (rule arg_cong)
  also have "\<dots> = 1 / 2 ^ (23 - k)"
    by (simp only: powr_minus_divide powr_realpow [OF zero_less_numeral])
  finally have ulp: "2 powr (real_of_int (int k) - 23) = 1 / 2 ^ (23 - k)" .
  have "fl x = of_int (round_to_even (x / (1 / 2 ^ (23 - k)))) * (1 / 2 ^ (23 - k))"
    unfolding fl_def Let_def e ulp using pos by (simp only: if_False)
  then show ?thesis
    by (simp only: divide_divide_eq_right mult_1 times_divide_eq_right mult_1_right div_by_1)
qed


lemma gridAmount_run: "gridAmount 2 (3 / 2) = 2"
proof -
  have "round_to_even (4 / 3 * 2 ^ (23 - 0)) = 11184811"
    by (simp add: round_to_even_def)
  then have a: "fl (4 / 3) = 11184811 / 8388608"
    using fl_binade [of 0 "4 / 3"] by simp
  have "round_to_even (19573419 / 8388608 * 2 ^ (23 - 1)) = 9786710"
    by (simp add: round_to_even_def)
  then have b: "fl (19573419 / 8388608) = 9786710 / 4194304"
    using fl_binade [of 1 "19573419 / 8388608"] by simp
  have v: "fl (fl (2 / (3 / 2)) + 1) = 9786710 / 4194304"
    by (simp add: a) (simp add: b)
  show ?thesis
    unfolding gridAmount_def v by (simp add: float_to_int_def)
qed

lemma machine_run: "fieldSize 2 2 2 = 27" "int32 (2 + 1) = 3"
  by (simp_all add: fieldSize_def int32_def)

section \<open>A worked run\<close>

text \<open>
  The unit sphere at the origin with \<open>cubeSize = 3/2\<close>, blending function \<open>SPORE\<close> and
  target value \<open>1/1000\<close>. The grid has two cells along each axis; its only corner inside
  the sphere is the middle one \<open>(1/2, 1/2, 1/2)\<close>, with value \<open>1/136\<close>. The coordinates
  of the run are dyadic rationals and the field values are only compared or divided by
  themselves, so vertices and triangles are the same in floats, and a normal can differ
  by rounding only.
\<close>

lemma upt_literals:
  "[0..<2] = [0, 1::nat]"
  "[0..<3] = [0, 1, 2::nat]"
  "[0..<5] = [0, 1, 2, 3, 4::nat]"
  "[0..<8] = [0, 1, 2, 3, 4, 5, 6, 7::nat]"
  "[0..<12] = [0, 1, 2, 3, 4, 5, 6, 7, 8, 9, 10, 11::nat]"
  by code_simp+

lemma replicate_literals:
  "replicate 12 x = [x,x,x,x,x,x,x,x,x,x,x,x]"
  "replicate 13 x = [x,x,x,x,x,x,x,x,x,x,x,x,x]"
  "replicate 27 x = [x,x,x,x,x,x,x,x,x,x,x,x,x,x,x,x,x,x,x,x,x,x,x,x,x,x,x]"
  by (simp_all add: numeral_eq_Suc)

lemma SphereNode_fields:
  "radius (SphereNode c r) = r"
  "extendsFrom (SphereNode c r) = vsub c (Vector3 r r r)"
  "extendsTo (SphereNode c r) = vadd c (Vector3 r r r)"
  by (simp_all add: SphereNode_def)

lemma normalise_axis:
  "normalise (Vector3 a 0 0) = Vector3 (sgn a) 0 0"
  "normalise (Vector3 0 a 0) = Vector3 0 (sgn a) 0"
  "normalise (Vector3 0 0 a) = Vector3 0 0 (sgn a)"
  by (simp_all add: normalise_def vlength_def sgn_real_def)

lemma IsoValue_Nil: "IsoValue [] pos = 0"
  by (simp add: IsoValue_def)

lemma IsoValue_unit_sphere:
  "IsoValue [SphereNode c 1] pos = 
     (let q = (vx pos - vx c) * (vx pos - vx c) + (vy pos - vy c) * (vy pos - vy c)
              + (vz pos - vz c) * (vz pos - vz c)
      in if q \<le> 1 then (q * q - 2 * q + 1) / (1 + 10 * q) else 0)"
  by (simp add: IsoValue_first_only kernel_sphere Let_def)

lemmas run_simps =
  generateObject_def extendBox_def FLT_MAX_def gridAmount_run machine_run int32_id Let_def
  fillScalarField_def fillSlot_def marchCubes_def marchCell_def makeCell_def cornerOfCell_def
  Triangulate_def edgeVertices_def edgeStep_def cornerStep_def addTriangle_def addCorner_def
  getNormal_def classicTables_def
  upt_literals replicate_literals SphereNode_fields normalise_axis IsoValue_Nil IsoValue_unit_sphere

lemma calculate_unit_sphere:
  "calculate NONE (classicTables otherFlags otherTriangles) [SphereNode (Vector3 0 0 0) 1]
      (3/2) 0 (1/1000) st0
   = Inr \<lparr> mSkeleton = [SphereNode (Vector3 0 0 0) 1],
           mCubeSize = 3/2, mBlendingFunction = 0, mTargetValue = 1/1000,
           mVertices = [Vector3 (1/2) (-1) (1/2), Vector3 (-1) (1/2) (1/2),
                        Vector3 (1/2) (1/2) (-1), Vector3 2 (1/2) (1/2),
                        Vector3 (1/2) 2 (1/2), Vector3 (1/2) (1/2) 2],
           mNormals = [Vector3 0 (-1) 0, Vector3 (-1) 0 0, Vector3 0 0 (-1),
                       Vector3 1 0 0, Vector3 0 1 0, Vector3 0 0 0],
           mTriangles = [[0, 1, 2], [3, 0, 2], [1, 4, 2], [3, 2, 4],
                         [0, 5, 1], [3, 5, 0], [1, 5, 4], [3, 4, 5]],
           mVertexHash = [Vector3 (1/2) (-1) (1/2) \<mapsto> 0, Vector3 (-1) (1/2) (1/2) \<mapsto> 1,
                          Vector3 (1/2) (1/2) (-1) \<mapsto> 2, Vector3 2 (1/2) (1/2) \<mapsto> 3,
                          Vector3 (1/2) 2 (1/2) \<mapsto> 4, Vector3 (1/2) (1/2) 2 \<mapsto> 5],
           mExtendsFrom = Vector3 (-1) (-1) (-1),
           mExtendsTo = Vector3 1 1 1 \<rparr>"
  by (cases st0) (simp add: calculate_def run_simps)


lemma calculate_shifted_sphere:
  "calculate NONE (classicTables otherFlags otherTriangles) [SphereNode (Vector3 0 2 0) 1]
      (3/2) 0 (1/1000) st0
   = Inr \<lparr> mSkeleton = [SphereNode (Vector3 0 2 0) 1],
           mCubeSize = 3/2, mBlendingFunction = 0, mTargetValue = 1/1000,
           mVertices = [Vector3 (1/2) 1 (1/2), Vector3 (-1) (5/2) (1/2),
                        Vector3 (1/2) (5/2) (-1), Vector3 2 (5/2) (1/2),
                        Vector3 (1/2) 4 (1/2), Vector3 (1/2) (5/2) 2],
           mNormals = [Vector3 0 (-1) 0, Vector3 (-1) 0 0, Vector3 0 0 (-1),
                       Vector3 1 0 0, Vector3 0 1 0, Vector3 0 0 1],
           mTriangles = [[0, 1, 2], [3, 0, 2], [1, 4, 2], [3, 2, 4],
                         [0, 5, 1], [3, 5, 0], [1, 5, 4], [3, 4, 5]],
           mVertexHash = [Vector3 (1/2) 1 (1/2) \<mapsto> 0, Vector3 (-1) (5/2) (1/2) \<mapsto> 1,
                          Vector3 (1/2) (5/2) (-1) \<mapsto> 2, Vector3 2 (5/2) (1/2) \<mapsto> 3,
                          Vector3 (1/2) 4 (1/2) \<mapsto> 4, Vector3 (1/2) (5/2) 2 \<mapsto> 5],
           mExtendsFrom = Vector3 (-1) 1 (-1),
           mExtendsTo = Vector3 1 3 1 \<rparr>"
  by (cases st0) (simp add: calculate_def run_simps)


section \<open>Normals\<close>

text \<open>
  C2. The claim: getNormal is the normalised negated central difference of IsoValue with
  step cubeSize, the z component sampling \<open>(x, y, z - h)\<close> and \<open>(x, y, z + h)\<close>. For the
  unit sphere at the origin, \<open>h = 3/2\<close> and the vertex \<open>(1/2, 1/2, 2)\<close> the code samples
  \<open>(1/2, 2, 1/2)\<close> in place of \<open>(1/2, 1/2, 1/2)\<close> and returns the zero vector, where the
  central difference gives \<open>(0, 0, 1)\<close>.
\<close>

theorem getNormal_z_sample_off_axis:
  "getNormal [SphereNode (Vector3 0 0 0) 1] (3/2) (Vector3 (1/2) (1/2) 2) = Vector3 0 0 0
   \<and> central_difference_normal [SphereNode (Vector3 0 0 0) 1] (3/2) (Vector3 (1/2) (1/2) 2)
       = Vector3 0 0 1"
  by (simp add: getNormal_def central_difference_normal_def IsoValue_unit_sphere normalise_axis)

section \<open>calculate and update\<close>

text \<open>
  C3. The claim: after every sequence of calculate and update calls the mesh has as many
  normals as vertices, all triangle indices within the vertex array and no position
  twice. After \<open>calculate\<close> on the unit sphere the invariant holds; a following \<open>update\<close>
  with the same skeleton empties the vertex array, finds every position in the
  de-duplication map it did not clear, and appends eight more triangles to the eight it
  did not clear: sixteen triangles index into an empty vertex array.
\<close>

theorem update_keeps_stale_triangles:
  "\<exists>st st'.
     calculate NONE (classicTables otherFlags otherTriangles) [SphereNode (Vector3 0 0 0) 1]
        (3/2) 0 (1/1000) st0 = Inr st
     \<and> mesh_ok st
     \<and> update (classicTables otherFlags otherTriangles) [SphereNode (Vector3 0 0 0) 1] st = Inr st'
     \<and> mVertices st' = [] \<and> mNormals st' = []
     \<and> mTriangles st' = [[0, 1, 2], [3, 0, 2], [1, 4, 2], [3, 2, 4],
                          [0, 5, 1], [3, 5, 0], [1, 5, 4], [3, 4, 5],
                          [0, 1, 2], [3, 0, 2], [1, 4, 2], [3, 2, 4],
                          [0, 5, 1], [3, 5, 0], [1, 5, 4], [3, 4, 5]]
     \<and> \<not> mesh_ok st'"
  unfolding calculate_unit_sphere
  by (simp add: update_def mesh_ok_def run_simps)

text \<open>
  C6. The claim: calculate or update with an empty skeleton returns an empty mesh. After
  \<open>calculate\<close> on the unit sphere, \<open>update\<close> with the empty skeleton returns with the
  eight triangles of the earlier run still in place.
\<close>

theorem update_empty_skeleton_keeps_triangles:
  "\<exists>st st'.
     calculate NONE (classicTables otherFlags otherTriangles) [SphereNode (Vector3 0 0 0) 1]
        (3/2) 0 (1/1000) st0 = Inr st
     \<and> update (classicTables otherFlags otherTriangles) [] st = Inr st'
     \<and> mVertices st' = []
     \<and> mTriangles st' = [[0, 1, 2], [3, 0, 2], [1, 4, 2], [3, 2, 4],
                          [0, 5, 1], [3, 5, 0], [1, 5, 4], [3, 4, 5]]
     \<and> length (mTriangles st') = 8"
  unfolding calculate_unit_sphere
  by (simp add: update_def run_simps)

text \<open>
  C9. The claim: translating every node by \<open>\<Delta>\<close> translates every vertex by \<open>\<Delta>\<close> and
  leaves normals and triangles unchanged. For the unit sphere and \<open>\<Delta> = (0, 2, 0)\<close> the
  vertices are translated and the triangles are the same, but the normal of the vertex
  \<open>(1/2, 1/2, 2)\<close> changes from \<open>(0, 0, 0)\<close> to \<open>(0, 0, 1)\<close>: the sample
  \<open>(x, z, z - h)\<close> of \<open>getNormal\<close> does not move with the skeleton.
\<close>

theorem translation_changes_normal:
  "\<exists>st st'.
     calculate NONE (classicTables otherFlags otherTriangles) [SphereNode (Vector3 0 0 0) 1]
        (3/2) 0 (1/1000) st0 = Inr st
     \<and> calculate NONE (classicTables otherFlags otherTriangles)
          [SphereNode (vadd (Vector3 0 0 0) (Vector3 0 2 0)) 1] (3/2) 0 (1/1000) st0 = Inr st'
     \<and> mVertices st' = map (\<lambda>v. vadd v (Vector3 0 2 0)) (mVertices st)
     \<and> mTriangles st' = mTriangles st
     \<and> mVertices st ! 5 = Vector3 (1/2) (1/2) 2
     \<and> mNormals st ! 5 = Vector3 0 0 0
     \<and> mNormals st' ! 5 = Vector3 0 0 1
     \<and> mNormals st' \<noteq> mNormals st"
  unfolding vadd.simps calculate_unit_sphere
  by (simp add: calculate_shifted_sphere)

text \<open>
  C10. The result of calculate depends on its arguments only: whatever the object held
  before (the outcome of any earlier calls), two runs with the same arguments end in the
  same outcome, vertices, normals and triangles included.
\<close>

theorem calculate_forgets_prior_state:
  "calculate NONE T skeleton cubeSize blend targetValue st1
   = calculate NONE T skeleton cubeSize blend targetValue st2"
  by (cases st1; cases st2) (simp add: calculate_def)

section \<open>The bounding box\<close>

lemma foldl_extendBox:
  "foldl extendBox st skeleton =
     st\<lparr> mExtendsTo := Vector3
            (foldl max (vx (mExtendsTo st)) (map (\<lambda>node. vx (extendsTo node)) skeleton))
            (foldl max (vy (mExtendsTo st)) (map (\<lambda>node. vy (extendsTo node)) skeleton))
            (foldl max (vz (mExtendsTo st)) (map (\<lambda>node. vz (extendsTo node)) skeleton)),
         mExtendsFrom := Vector3
            (foldl min (vx (mExtendsFrom st)) (map (\<lambda>node. vx (extendsFrom node)) skeleton))
            (foldl min (vy (mExtendsFrom st)) (map (\<lambda>node. vy (extendsFrom node)) skeleton))
            (foldl min (vz (mExtendsFrom st)) (map (\<lambda>node. vz (extendsFrom node)) skeleton)) \<rparr>"
proof (induction skeleton arbitrary: st)
  case Nil
  show ?case by simp
next
  case (Cons node rest)
  have step: "\<And>a b :: real. (if a > b then a else b) = max b a"
             "\<And>a b :: real. (if a < b then a else b) = min b a"
    by (simp_all add: max_def min_def)
  show ?case
    by (simp add: Cons.IH) (simp add: extendBox_def step)
qed



lemma foldl_max_Max: "foldl max (a::real) xs = Max (insert a (set xs))"
proof (induction xs arbitrary: a)
  case Nil
  show ?case by simp
next
  case (Cons x xs)
  have "finite S \<Longrightarrow> Max (insert (max a x) S) = Max (insert a (insert x S))" for S
    using Max_insert by fastforce
  then have "Max (insert (max a x) (set xs)) = Max (insert a (insert x (set xs)))"
    by simp
  then show ?case by (simp add: Cons.IH)
qed

lemma foldl_min_Min: "foldl min (a::real) xs = Min (insert a (set xs))"
proof (induction xs arbitrary: a)
  case Nil
  show ?case by simp
next
  case (Cons x xs)
  have "finite S \<Longrightarrow> Min (insert (min a x) S) = Min (insert a (insert x S))" for S
    using Min_insert by fastforce
  then have "Min (insert (min a x) (set xs)) = Min (insert a (insert x (set xs)))"
    by simp
  then show ?case by (simp add: Cons.IH)
qed

lemma foldl_max_bounded:
  assumes "xs \<noteq> []" and "\<forall>x \<in> set xs. a \<le> x"
  shows "foldl max (a::real) xs = Max (set xs)"
proof -
  have "Max (insert a (set xs)) = max a (Max (set xs))"
    using assms(1) by (simp add: Max_insert)
  moreover have "a \<le> Max (set xs)"
    using assms by (metis List.finite_set Max_ge_iff last_in_set set_empty)
  ultimately show ?thesis by (simp add: foldl_max_Max max_def)
qed

lemma foldl_min_bounded:
  assumes "xs \<noteq> []" and "\<forall>x \<in> set xs. x \<le> a"
  shows "foldl min (a::real) xs = Min (set xs)"
proof -
  have "Min (insert a (set xs)) = min a (Min (set xs))"
    using assms(1) by (simp add: Min_insert)
  moreover have "Min (set xs) \<le> a"
    using assms by (metis List.finite_set Min_le_iff last_in_set set_empty)
  ultimately show ?thesis by (simp add: foldl_min_Min min_def)
qed

lemma union_box:
  assumes "skeleton \<noteq> []" and "float_extents skeleton"
    and "mExtendsTo st = Vector3 (- FLT_MAX) (- FLT_MAX) (- FLT_MAX)"
    and "mExtendsFrom st = Vector3 FLT_MAX FLT_MAX FLT_MAX"
  shows "foldl extendBox st skeleton =
     st\<lparr> mExtendsTo := unionExtendsTo skeleton, mExtendsFrom := unionExtendsFrom skeleton \<rparr>"
proof -
  have rng: "- FLT_MAX \<le> vx (extendsTo node) \<and> - FLT_MAX \<le> vy (extendsTo node)
      \<and> - FLT_MAX \<le> vz (extendsTo node) \<and> vx (extendsFrom node) \<le> FLT_MAX
      \<and> vy (extendsFrom node) \<le> FLT_MAX \<and> vz (extendsFrom node) \<le> FLT_MAX"
    if "node \<in> set skeleton" for node
  proof -
    have "float_range (extendsFrom node) \<and> float_range (extendsTo node)"
      using assms(2) that by (simp add: float_extents_def list_all_iff)
    then show ?thesis
      unfolding float_range_def abs_le_iff by linarith
  qed
  have up: "foldl max (- FLT_MAX) (map (\<lambda>node. f (extendsTo node)) skeleton)
      = Max (set (map (\<lambda>node. f (extendsTo node)) skeleton))"
    if "f = vx \<or> f = vy \<or> f = vz" for f
    using that assms(1) rng by (intro foldl_max_bounded) auto
  have down: "foldl min FLT_MAX (map (\<lambda>node. f (extendsFrom node)) skeleton)
      = Min (set (map (\<lambda>node. f (extendsFrom node)) skeleton))"
    if "f = vx \<or> f = vy \<or> f = vz" for f
    using that assms(1) rng by (intro foldl_min_bounded) auto
  show ?thesis
    by (simp add: foldl_extendBox assms(3,4) up down unionExtendsTo_def unionExtendsFrom_def)
qed

text \<open>
  C8. For a non-empty skeleton whose union bounding box is no longer than \<open>cubeSize\<close> on
  some axis, calculate skips the generation: under a valid configuration it returns the
  object with empty vertex, normal and triangle arrays (and the union box as extents);
  under an invalid one it stops at the assertion, and no mesh is produced either.
\<close>

theorem calculate_degenerate_box:
  assumes "skeleton \<noteq> []" and "float_extents skeleton"
    and "vx (vsub (unionExtendsTo skeleton) (unionExtendsFrom skeleton)) \<le> cubeSize
         \<or> vy (vsub (unionExtendsTo skeleton) (unionExtendsFrom skeleton)) \<le> cubeSize
         \<or> vz (vsub (unionExtendsTo skeleton) (unionExtendsFrom skeleton)) \<le> cubeSize"
  shows "calculate NONE T skeleton cubeSize blend targetValue st0 =
     (if 0 < cubeSize \<and> 0 \<le> blend \<and> blend \<le> int NONE
      then Inr (st0\<lparr> mSkeleton := skeleton, mCubeSize := cubeSize,
                      mBlendingFunction := blend, mTargetValue := targetValue,
                      mVertices := [], mNormals := [], mTriangles := [],
                      mVertexHash := Map.empty,
                      mExtendsFrom := unionExtendsFrom skeleton,
                      mExtendsTo := unionExtendsTo skeleton \<rparr>)
      else Inl AssertionFailed)"
proof -
  define st where "st = st0\<lparr> mSkeleton := skeleton, mCubeSize := cubeSize,
                      mBlendingFunction := blend, mTargetValue := targetValue,
                      mVertices := [], mNormals := [], mTriangles := [],
                      mVertexHash := Map.empty,
                      mExtendsFrom := Vector3 FLT_MAX FLT_MAX FLT_MAX,
                      mExtendsTo := Vector3 (- FLT_MAX) (- FLT_MAX) (- FLT_MAX) \<rparr>"
  have box: "foldl extendBox st skeleton =
     st\<lparr> mExtendsTo := unionExtendsTo skeleton, mExtendsFrom := unionExtendsFrom skeleton \<rparr>"
    using assms(1,2) by (intro union_box) (simp_all add: st_def)
  have skip: "generateObject T (st\<lparr> mExtendsTo := unionExtendsTo skeleton,
                 mExtendsFrom := unionExtendsFrom skeleton \<rparr>)
      = Inr (st\<lparr> mExtendsTo := unionExtendsTo skeleton,
                 mExtendsFrom := unionExtendsFrom skeleton \<rparr>)"
    using assms(3) by (auto simp: generateObject_def st_def Let_def)
  have "calculate NONE T skeleton cubeSize blend targetValue st0 =
     (if 0 < cubeSize \<and> 0 \<le> blend \<and> blend \<le> int NONE
      then generateObject T (foldl extendBox st skeleton) else Inl AssertionFailed)"
    using assms(1) by (auto simp: calculate_def st_def Let_def)
  then show ?thesis
    by (simp add: box skip) (simp add: st_def)
qed

theorem calculate_degenerate_box_witness:
  "[SphereNode (Vector3 0 0 0) (1/20)] \<noteq> []
   \<and> float_extents [SphereNode (Vector3 0 0 0) (1/20)]
   \<and> vx (vsub (unionExtendsTo [SphereNode (Vector3 0 0 0) (1/20)])
              (unionExtendsFrom [SphereNode (Vector3 0 0 0) (1/20)])) \<le> 1/5
   \<and> calculate 1 (classicTables (\<lambda>f. 0) (\<lambda>f k. -1)) [SphereNode (Vector3 0 0 0) (1/20)]
        (1/5) 0 (4/5) freshIsosurface
      = Inr \<lparr> mSkeleton = [SphereNode (Vector3 0 0 0) (1/20)], mCubeSize = 1/5,
              mBlendingFunction = 0, mTargetValue = 4/5,
              mVertices = [], mNormals = [], mTriangles = [], mVertexHash = Map.empty,
              mExtendsFrom = Vector3 (-1/20) (-1/20) (-1/20),
              mExtendsTo = Vector3 (1/20) (1/20) (1/20) \<rparr>"
proof -
  have ne: "[SphereNode (Vector3 0 0 0) (1/20)] \<noteq> []" by simp
  have fl: "float_extents [SphereNode (Vector3 0 0 0) (1/20)]"
    by (simp add: float_extents_def float_range_def SphereNode_def FLT_MAX_def)
  have bx: "vx (vsub (unionExtendsTo [SphereNode (Vector3 0 0 0) (1/20)])
              (unionExtendsFrom [SphereNode (Vector3 0 0 0) (1/20)])) \<le> 1/5"
    by (simp add: unionExtendsTo_def unionExtendsFrom_def SphereNode_def)
  show ?thesis
    using ne fl bx
      calculate_degenerate_box [of "[SphereNode (Vector3 0 0 0) (1/20)]" "1/5" 1
        "classicTables (\<lambda>f. 0) (\<lambda>f k. -1)" 0 "4/5" freshIsosurface]
    by (simp add: freshIsosurface_def unionExtendsTo_def unionExtendsFrom_def SphereNode_def)
qed

section \<open>Loops\<close>

lemma for_each_append:
  "for_each (xs @ ys) body s =
     (case for_each xs body s of Inl e \<Rightarrow> Inl e | Inr s' \<Rightarrow> for_each ys body s')"
  by (induction xs arbitrary: s) (auto split: sum.splits)

lemma for_each_map: "for_each (map g xs) body s = for_each xs (\<lambda>i. body (g i)) s"
  by (induction xs arbitrary: s) (auto split: sum.splits)

lemma for_each_nested:
  "for_each xs (\<lambda>i. for_each (inner i) (body i)) s
   = for_each (concat (map (\<lambda>i. map (Pair i) (inner i)) xs)) (\<lambda>(i, j). body i j) s"
  by (induction xs arbitrary: s) (auto simp: for_each_append for_each_map split: sum.splits)

lemma for_each_no_assertion:
  assumes "\<And>i s. body i s \<noteq> Inl AssertionFailed"
  shows "for_each xs body s \<noteq> Inl AssertionFailed"
  using assms by (induction xs arbitrary: s) (auto split: sum.splits)

section \<open>The scalar field\<close>

lemma int32_nat: "n < 2147483648 \<Longrightarrow> int32 (int n) = int n"
  by (simp add: int32_id)

lemma fillScalarField_flat:
  assumes "0 \<le> xAmount" "xAmount + 1 < 2147483648"
    and "0 \<le> yAmount" "yAmount + 1 < 2147483648"
    and "0 \<le> zAmount" "zAmount + 1 < 2147483648"
  shows "fillScalarField skeleton from cubeSize scalarField xAmount yAmount zAmount
   = for_each (gridCorners xAmount yAmount zAmount)
       (\<lambda>(z, y, x). fillSlot skeleton from cubeSize xAmount yAmount zAmount z y x) scalarField"
proof -
  let ?F = "fillSlot skeleton from cubeSize xAmount yAmount zAmount"
  let ?xs = "[0..<nat (xAmount + 1)]" and ?ys = "[0..<nat (yAmount + 1)]"
  have wrap: "int32 (xAmount + 1) = xAmount + 1" "int32 (yAmount + 1) = yAmount + 1"
      "int32 (zAmount + 1) = zAmount + 1"
    using assms by (simp_all add: int32_id)
  have inner: "for_each ?ys (\<lambda>y. for_each ?xs (?F z y))
      = for_each (concat (map (\<lambda>y. map (Pair y) ?xs) ?ys)) (\<lambda>(y, x). ?F z y x)" for z
    by (rule ext) (rule for_each_nested)
  show ?thesis
    unfolding fillScalarField_def gridCorners_def wrap inner
    by (rule for_each_nested [where body = "\<lambda>z (y, x). ?F z y x"])
qed

lemma slotOf_nat:
  assumes "0 \<le> xAmount" and "0 \<le> yAmount"
  shows "slotOf xAmount yAmount zAmount (z, y, x)
     = z * (nat (xAmount + 1) * nat (yAmount + 1)) + (y * nat (xAmount + 1) + x)"
proof -
  obtain w h where w: "xAmount + 1 = int w" and h: "yAmount + 1 = int h"
    using assms by (metis add_nonneg_nonneg zero_le_imp_eq_int zero_le_one)
  have eq: "int z * int w * int h + int y * int w + int x = int (z * (w * h) + (y * w + x))"
    by (simp add: algebra_simps)
  show ?thesis
    by (simp only: slotOf_def prod.case w h eq nat_int)
qed

lemma concat_blocks:
  "concat (map (\<lambda>i. [b + i * w ..< b + i * w + w]) [0..<n]) = [b ..< b + n * w]"
proof (induction n)
  case 0
  show ?case by simp
next
  case (Suc n)
  have "concat (map (\<lambda>i. [b + i * w ..< b + i * w + w]) [0..<Suc n])
      = [b ..< b + n * w] @ [b + n * w ..< b + n * w + w]"
    by (simp add: Suc.IH)
  also have "\<dots> = [b ..< b + n * w + w]"
    by (rule upt_add_eq_append [symmetric]) simp
  also have "b + n * w + w = b + Suc n * w"
    by simp
  finally show ?case .
qed

lemma gridCorners_slots:
  assumes "0 \<le> xAmount" and "0 \<le> yAmount" and "0 \<le> zAmount"
  shows "map (slotOf xAmount yAmount zAmount) (gridCorners xAmount yAmount zAmount)
     = [0..<nat ((xAmount + 1) * (yAmount + 1) * (zAmount + 1))]"
proof -
  let ?w = "nat (xAmount + 1)" and ?h = "nat (yAmount + 1)" and ?d = "nat (zAmount + 1)"
  have row: "map (\<lambda>x. z * (?w * ?h) + (y * ?w + x)) [0..<?w]
      = [z * (?w * ?h) + y * ?w ..< z * (?w * ?h) + y * ?w + ?w]" for z y
    using map_add_upt [of "z * (?w * ?h) + y * ?w" ?w] by (simp add: add.commute add.assoc)
  have slab: "concat (map (\<lambda>y. map (\<lambda>x. z * (?w * ?h) + (y * ?w + x)) [0..<?w]) [0..<?h])
      = [z * (?w * ?h) ..< z * (?w * ?h) + ?w * ?h]" for z
    unfolding row using concat_blocks [of "z * (?w * ?h)" ?w ?h]
    by (simp add: mult.commute)
  have "map (slotOf xAmount yAmount zAmount) (gridCorners xAmount yAmount zAmount)
      = concat (map (\<lambda>z. concat (map (\<lambda>y. map (\<lambda>x. z * (?w * ?h) + (y * ?w + x)) [0..<?w])
          [0..<?h])) [0..<?d])"
    using assms(1,2)
    by (simp add: gridCorners_def map_concat comp_def slotOf_nat)
  also have "\<dots> = [0 ..< 0 + ?d * (?w * ?h)]"
    unfolding slab using concat_blocks [of 0 "?w * ?h" ?d] by simp
  also have "?d * (?w * ?h) = nat ((xAmount + 1) * (yAmount + 1) * (zAmount + 1))"
    using assms by (simp add: nat_mult_distrib mult.commute mult.left_commute)
  finally show ?thesis by simp
qed

lemma in_gridCorners:
  "(z, y, x) \<in> set (gridCorners xAmount yAmount zAmount)
   \<longleftrightarrow> x < nat (xAmount + 1) \<and> y < nat (yAmount + 1) \<and> z < nat (zAmount + 1)"
  by (force simp: gridCorners_def)

lemma corner_below_count:
  fixes x y z w h d :: nat
  assumes "x < w" and "y < h" and "z < d"
  shows "z * (w * h) + (y * w + x) < w * h * d"
proof -
  have "y * w + x < Suc y * w" using assms(1) by simp
  also have "\<dots> \<le> h * w" using assms(2) by (intro mult_le_mono1) simp
  finally have "z * (w * h) + (y * w + x) < Suc z * (w * h)"
    by (simp add: mult.commute)
  also have "\<dots> \<le> d * (w * h)" using assms(3) by (intro mult_le_mono1) simp
  finally show ?thesis by (simp add: mult.commute)
qed

text \<open>
  Within a grid whose number of corners is below \<open>2\<^sup>3\<^sup>1\<close> no step of \<open>getMapIndex\<close> wraps:
  the index of a corner is its slot.
\<close>

lemma getMapIndex_slotOf:
  assumes "0 \<le> xAmount" and "0 \<le> yAmount" and "0 \<le> zAmount"
    and fits: "(xAmount + 1) * (yAmount + 1) * (zAmount + 1) < 2147483648"
    and "x < nat (xAmount + 1)" and "y < nat (yAmount + 1)" and "z < nat (zAmount + 1)"
  shows "getMapIndex (int x) (int y) (int z)
           (int32 (xAmount + 1)) (int32 (yAmount + 1)) (int32 (zAmount + 1))
     = int (slotOf xAmount yAmount zAmount (z, y, x))"
proof -
  obtain w h d where w: "xAmount + 1 = int w" and h: "yAmount + 1 = int h"
      and d: "zAmount + 1 = int d"
    using assms(1-3) by (metis add_nonneg_nonneg zero_le_imp_eq_int zero_le_one)
  have xyz: "x < w" "y < h" "z < d"
    using assms(5-7) by (simp_all add: w h d)
  have count: "w * h * d < 2147483648"
    using fits unfolding w h d by (metis (no_types) of_nat_mult of_nat_less_iff of_nat_numeral)
  have top: "z * (w * h) + (y * w + x) < w * h * d"
    by (rule corner_below_count [OF xyz])
  have h1: "1 \<le> h" and d1: "1 \<le> d" and w1: "1 \<le> w"
    using xyz by simp_all
  have a: "z * w \<le> z * (w * h)"
    using h1 by simp
  have ww: "w \<le> w * h * d"
    using h1 d1 by (simp add: Suc_le_eq)
  have hh: "h \<le> w * h * d"
    using w1 d1 by (simp add: Suc_le_eq)
  have dd: "d \<le> w * h * d"
    using w1 h1 by (simp add: Suc_le_eq)
  have small: "z * w < 2147483648" "z * (w * h) < 2147483648" "y * w < 2147483648"
      "z * (w * h) + y * w < 2147483648" "z * (w * h) + (y * w + x) < 2147483648"
      "w < 2147483648" "h < 2147483648" "d < 2147483648"
    using a top count ww hh dd by linarith+
  have wrapw: "int32 (int w) = int w" "int32 (int h) = int h" "int32 (int d) = int d"
    using small(6-8) by (simp_all add: int32_id)
  have s1: "int32 (int z * int w) = int (z * w)"
    using int32_nat [OF small(1)] by (simp only: of_nat_mult)
  have s2: "int32 (int (z * w) * int h) = int (z * (w * h))"
    using int32_nat [OF small(2)] by (simp only: of_nat_mult mult.assoc)
  have s3: "int32 (int y * int w) = int (y * w)"
    using int32_nat [OF small(3)] by (simp only: of_nat_mult)
  have s4: "int32 (int (z * (w * h)) + int (y * w)) = int (z * (w * h) + y * w)"
    using int32_nat [OF small(4)] by (simp only: of_nat_add)
  have s5: "int32 (int (z * (w * h) + y * w) + int x) = int (z * (w * h) + (y * w + x))"
    using int32_nat [OF small(5)] by (simp only: of_nat_add add.assoc)
  have slot: "slotOf xAmount yAmount zAmount (z, y, x) = z * (w * h) + (y * w + x)"
    using slotOf_nat [OF assms(1,2)] by (simp add: w h)
  show ?thesis
    unfolding getMapIndex.simps w h d wrapw s1 s2 s3 s4 s5 slot ..
qed

lemma fieldSize_fits:
  assumes "0 \<le> xAmount" and "0 \<le> yAmount" and "0 \<le> zAmount"
    and fits: "(xAmount + 1) * (yAmount + 1) * (zAmount + 1) < 2147483648"
  shows "fieldSize xAmount yAmount zAmount = (xAmount + 1) * (yAmount + 1) * (zAmount + 1)"
    and "xAmount + 1 < 2147483648" and "yAmount + 1 < 2147483648"
    and "zAmount + 1 < 2147483648"
proof -
  obtain w h d where w: "xAmount + 1 = int w" and h: "yAmount + 1 = int h"
      and d: "zAmount + 1 = int d"
    using assms(1-3) by (metis add_nonneg_nonneg zero_le_imp_eq_int zero_le_one)
  have pos: "1 \<le> w" "1 \<le> h" "1 \<le> d"
    using assms(1-3) w h d by linarith+
  have count: "w * h * d < 2147483648"
    using fits unfolding w h d by (metis (no_types) of_nat_mult of_nat_less_iff of_nat_numeral)
  have "w \<le> w * h" "w * h \<le> w * h * d" "h \<le> w * h" "d \<le> w * h * d"
    using pos by (simp_all add: Suc_le_eq)
  then have small: "w < 2147483648" "h < 2147483648" "d < 2147483648" "w * h < 2147483648"
    using count by linarith+
  have "int32 (int32 (int32 (int w) * int32 (int h)) * int32 (int d)) = int (w * h * d)"
    using small count by (simp add: int32_id flip: of_nat_mult)
  then show "fieldSize xAmount yAmount zAmount = (xAmount + 1) * (yAmount + 1) * (zAmount + 1)"
    by (simp add: fieldSize_def w h d)
  show "xAmount + 1 < 2147483648" "yAmount + 1 < 2147483648" "zAmount + 1 < 2147483648"
    using small(1-3) by (simp_all add: w h d)
qed

lemma fillSlot_slotOf:
  assumes "0 \<le> xAmount" and "0 \<le> yAmount" and "0 \<le> zAmount"
    and "(xAmount + 1) * (yAmount + 1) * (zAmount + 1) < 2147483648"
    and "x < nat (xAmount + 1)" and "y < nat (yAmount + 1)" and "z < nat (zAmount + 1)"
  shows "fillSlot skeleton from cubeSize xAmount yAmount zAmount z y x scalarField =
     (if length scalarField \<le> slotOf xAmount yAmount zAmount (z, y, x) then Inl OutOfRange
      else if scalarField ! slotOf xAmount yAmount zAmount (z, y, x) \<noteq> -1
           then Inl AssertionFailed
      else Inr (scalarField[slotOf xAmount yAmount zAmount (z, y, x) :=
             IsoValue skeleton (Vector3 (vx from + real x * cubeSize)
               (vy from + real y * cubeSize) (vz from + real z * cubeSize))]))"
  unfolding fillSlot_def getMapIndex_slotOf [OF assms] Let_def
  by simp

lemma fill_loop:
  assumes "distinct (map slot cs)"
    and "\<forall>c \<in> set cs. slot c < length S \<and> S ! slot c = -1"
    and "\<And>c S'. c \<in> set cs \<Longrightarrow> body c S' =
           (if length S' \<le> slot c then Inl OutOfRange
            else if S' ! slot c \<noteq> -1 then Inl AssertionFailed
            else Inr (S'[slot c := v c]))"
  shows "\<exists>S'. for_each cs body S = Inr S' \<and> length S' = length S
           \<and> (\<forall>c \<in> set cs. S' ! slot c = v c)
           \<and> (\<forall>k. k \<notin> slot ` set cs \<longrightarrow> S' ! k = S ! k)"
  using assms
proof (induction cs arbitrary: S)
  case Nil
  show ?case by simp
next
  case (Cons c cs)
  let ?S1 = "S[slot c := v c]"
  have first: "body c S = Inr ?S1"
    using Cons.prems(2) by (simp add: Cons.prems(3))
  have rest: "\<forall>c' \<in> set cs. slot c' < length ?S1 \<and> ?S1 ! slot c' = -1"
  proof
    fix c' assume c': "c' \<in> set cs"
    then have "slot c' \<in> slot ` set cs"
      by (rule imageI)
    moreover have "slot c \<notin> slot ` set cs"
      using Cons.prems(1) by simp
    ultimately have "slot c' \<noteq> slot c"
      by metis
    then show "slot c' < length ?S1 \<and> ?S1 ! slot c' = -1"
      using Cons.prems(2) c' by simp
  qed
  have d: "distinct (map slot cs)"
    using Cons.prems(1) by simp
  have b: "\<And>c' S'. c' \<in> set cs \<Longrightarrow> body c' S' =
           (if length S' \<le> slot c' then Inl OutOfRange
            else if S' ! slot c' \<noteq> -1 then Inl AssertionFailed
            else Inr (S'[slot c' := v c']))"
    using Cons.prems(3) by simp
  from Cons.IH [OF d rest b]
  obtain S' where S': "for_each cs body ?S1 = Inr S'" "length S' = length ?S1"
      "\<forall>c' \<in> set cs. S' ! slot c' = v c'"
      "\<forall>k. k \<notin> slot ` set cs \<longrightarrow> S' ! k = ?S1 ! k"
    by auto
  have "S' ! slot c = v c"
    using S'(4) Cons.prems(1,2) by auto
  moreover have "\<forall>k. k \<notin> slot ` set (c # cs) \<longrightarrow> S' ! k = S ! k"
    using S'(4) by auto
  ultimately show ?case
    using first S' by auto
qed

lemma fillScalarField_result:
  assumes "0 \<le> xAmount" and "0 \<le> yAmount" and "0 \<le> zAmount"
    and "(xAmount + 1) * (yAmount + 1) * (zAmount + 1) < 2147483648"
  shows "\<exists>S. fillScalarField skeleton from cubeSize
            (replicate (nat (fieldSize xAmount yAmount zAmount)) (-1))
            xAmount yAmount zAmount = Inr S
          \<and> length S = nat ((xAmount + 1) * (yAmount + 1) * (zAmount + 1))
          \<and> (\<forall>x y z. x \<le> nat xAmount \<and> y \<le> nat yAmount \<and> z \<le> nat zAmount \<longrightarrow>
                S ! slotOf xAmount yAmount zAmount (z, y, x)
                = IsoValue skeleton (Vector3 (vx from + real x * cubeSize)
                    (vy from + real y * cubeSize) (vz from + real z * cubeSize)))"
proof -
  let ?N = "nat ((xAmount + 1) * (yAmount + 1) * (zAmount + 1))"
  let ?slot = "slotOf xAmount yAmount zAmount"
  let ?cs = "gridCorners xAmount yAmount zAmount"
  let ?v = "\<lambda>(z, y, x). IsoValue skeleton (Vector3 (vx from + real x * cubeSize)
                    (vy from + real y * cubeSize) (vz from + real z * cubeSize))"
  note sizes = fieldSize_fits [OF assms]
  have slots: "map ?slot ?cs = [0..<?N]"
    by (rule gridCorners_slots [OF assms(1-3)])
  have d: "distinct (map ?slot ?cs)"
    by (simp add: slots)
  have r: "\<forall>c \<in> set ?cs. ?slot c < length (replicate ?N (-1::real))
             \<and> replicate ?N (-1::real) ! ?slot c = -1"
  proof
    fix c assume "c \<in> set ?cs"
    then have "?slot c \<in> set (map ?slot ?cs)" by simp
    then have "?slot c < ?N" unfolding slots by simp
    then show "?slot c < length (replicate ?N (-1::real))
             \<and> replicate ?N (-1::real) ! ?slot c = -1" by simp
  qed
  have b: "(case c of (z, y, x) \<Rightarrow> fillSlot skeleton from cubeSize xAmount yAmount zAmount z y x) S'
      = (if length S' \<le> ?slot c then Inl OutOfRange
         else if S' ! ?slot c \<noteq> -1 then Inl AssertionFailed
         else Inr (S'[?slot c := ?v c]))" if "c \<in> set ?cs" for c S'
  proof -
    obtain z y x where c: "c = (z, y, x)" by (cases c) auto
    then have "x < nat (xAmount + 1)" "y < nat (yAmount + 1)" "z < nat (zAmount + 1)"
      using that by (simp_all add: in_gridCorners)
    then show ?thesis
      by (simp add: c fillSlot_slotOf [OF assms])
  qed
  from fill_loop [of ?slot ?cs "replicate ?N (-1)" _ ?v, OF d r b]
  obtain S where S: "for_each ?cs
        (\<lambda>(z, y, x). fillSlot skeleton from cubeSize xAmount yAmount zAmount z y x)
        (replicate ?N (-1)) = Inr S"
      "length S = ?N" "\<forall>c \<in> set ?cs. S ! ?slot c = ?v c"
    by auto
  have "S ! ?slot (z, y, x) = ?v (z, y, x)"
    if "x \<le> nat xAmount \<and> y \<le> nat yAmount \<and> z \<le> nat zAmount" for x y z
  proof -
    have "(z, y, x) \<in> set ?cs"
      using that assms(1-3) by (simp add: in_gridCorners nat_add_distrib)
    then show ?thesis using S(3) by blast
  qed
  moreover have "fillScalarField skeleton from cubeSize
            (replicate (nat (fieldSize xAmount yAmount zAmount)) (-1))
            xAmount yAmount zAmount = Inr S"
    using S(1) sizes assms(1-3) by (simp add: fillScalarField_flat)
  ultimately show ?thesis
    using S(2) by auto
qed

lemma vsub_components:
  "vx (vsub a b) = vx a - vx b" "vy (vsub a b) = vy a - vy b" "vz (vsub a b) = vz a - vz b"
  by (cases a; cases b; simp)+


text \<open>
  What \<open>generateObject\<close> does with a box that exceeds \<open>cubeSize\<close> on every axis, when the
  grid fits 32-bit \<open>int\<close>s.
\<close>

lemma generateObject_fits:
  assumes "mCubeSize st < vx (mExtendsTo st) - vx (mExtendsFrom st)"
    and "mCubeSize st < vy (mExtendsTo st) - vy (mExtendsFrom st)"
    and "mCubeSize st < vz (mExtendsTo st) - vz (mExtendsFrom st)"
    and "nx = gridAmount (vx (mExtendsTo st) - vx (mExtendsFrom st)) (mCubeSize st)"
    and "ny = gridAmount (vy (mExtendsTo st) - vy (mExtendsFrom st)) (mCubeSize st)"
    and "nz = gridAmount (vz (mExtendsTo st) - vz (mExtendsFrom st)) (mCubeSize st)"
    and "0 \<le> nx" and "0 \<le> ny" and "0 \<le> nz"
    and "(nx + 1) * (ny + 1) * (nz + 1) < 2147483648"
  shows "\<exists>S. length S = nat ((nx + 1) * (ny + 1) * (nz + 1))
     \<and> fillScalarField (mSkeleton st) (mExtendsFrom st) (mCubeSize st)
         (replicate (nat ((nx + 1) * (ny + 1) * (nz + 1))) (-1)) nx ny nz = Inr S
     \<and> (\<forall>x y z. x \<le> nat nx \<and> y \<le> nat ny \<and> z \<le> nat nz \<longrightarrow>
           S ! slotOf nx ny nz (z, y, x)
           = IsoValue (mSkeleton st) (Vector3 (vx (mExtendsFrom st) + real x * mCubeSize st)
               (vy (mExtendsFrom st) + real y * mCubeSize st)
               (vz (mExtendsFrom st) + real z * mCubeSize st)))
     \<and> generateObject T st =
         (case marchCubes T S nx ny nz (st, 0) of Inl e \<Rightarrow> Inl e | Inr s \<Rightarrow> Inr (fst s))"
proof -
  note fit = assms(7-10)
  have size: "fieldSize nx ny nz = (nx + 1) * (ny + 1) * (nz + 1)"
    by (rule fieldSize_fits(1) [OF fit])
  have "0 \<le> (nx + 1) * (ny + 1) * (nz + 1)"
    using fit(1-3) by simp
  then have nonneg: "\<not> fieldSize nx ny nz < 0"
    unfolding size by simp
  from fillScalarField_result [OF fit, of "mSkeleton st" "mExtendsFrom st" "mCubeSize st"]
  obtain S where S: "fillScalarField (mSkeleton st) (mExtendsFrom st) (mCubeSize st)
        (replicate (nat (fieldSize nx ny nz)) (-1)) nx ny nz = Inr S"
      "length S = nat ((nx + 1) * (ny + 1) * (nz + 1))"
      "\<forall>x y z. x \<le> nat nx \<and> y \<le> nat ny \<and> z \<le> nat nz \<longrightarrow>
         S ! slotOf nx ny nz (z, y, x)
         = IsoValue (mSkeleton st) (Vector3 (vx (mExtendsFrom st) + real x * mCubeSize st)
             (vy (mExtendsFrom st) + real y * mCubeSize st)
             (vz (mExtendsFrom st) + real z * mCubeSize st))"
    by blast
  have gen: "generateObject T st =
      (case marchCubes T S nx ny nz (st, 0) of Inl e \<Rightarrow> Inl e | Inr s \<Rightarrow> Inr (fst s))"
    using assms(1-3) nonneg S(1)
    by (simp add: generateObject_def Let_def vsub_components flip: assms(4-6))
  show ?thesis
    using S gen unfolding size by blast
qed

text \<open>
  The box that \<open>generateObject\<close> reads is the one stored in the object. \<open>calculate\<close> stores
  the union box of the skeleton before it calls \<open>generateObject\<close>; \<open>update\<close> stores none and
  leaves the box of the last \<open>calculate\<close>.
\<close>

lemma calculate_generateObject:
  assumes "skeleton \<noteq> []" and "float_extents skeleton"
    and "0 < cubeSize" and "0 \<le> blend" and "blend \<le> int NONE"
  shows "calculate NONE T skeleton cubeSize blend targetValue st0 =
     generateObject T (st0\<lparr> mSkeleton := skeleton, mCubeSize := cubeSize,
                      mBlendingFunction := blend, mTargetValue := targetValue,
                      mVertices := [], mNormals := [], mTriangles := [],
                      mVertexHash := Map.empty,
                      mExtendsFrom := unionExtendsFrom skeleton,
                      mExtendsTo := unionExtendsTo skeleton \<rparr>)"
proof -
  define st where "st = st0\<lparr> mSkeleton := skeleton, mCubeSize := cubeSize,
                      mBlendingFunction := blend, mTargetValue := targetValue,
                      mVertices := [], mNormals := [], mTriangles := [],
                      mVertexHash := Map.empty,
                      mExtendsFrom := Vector3 FLT_MAX FLT_MAX FLT_MAX,
                      mExtendsTo := Vector3 (- FLT_MAX) (- FLT_MAX) (- FLT_MAX) \<rparr>"
  have box: "foldl extendBox st skeleton =
     st\<lparr> mExtendsTo := unionExtendsTo skeleton, mExtendsFrom := unionExtendsFrom skeleton \<rparr>"
    using assms(1,2) by (intro union_box) (simp_all add: st_def)
  have "calculate NONE T skeleton cubeSize blend targetValue st0 =
      generateObject T (foldl extendBox st skeleton)"
    using assms(1,3-5) by (auto simp: calculate_def st_def Let_def)
  also have "foldl extendBox st skeleton =
      st0\<lparr> mSkeleton := skeleton, mCubeSize := cubeSize,
                      mBlendingFunction := blend, mTargetValue := targetValue,
                      mVertices := [], mNormals := [], mTriangles := [],
                      mVertexHash := Map.empty,
                      mExtendsFrom := unionExtendsFrom skeleton,
                      mExtendsTo := unionExtendsTo skeleton \<rparr>"
    unfolding box by (cases st0) (simp add: st_def)
  finally show ?thesis .
qed

lemma update_generateObject:
  "update T skeleton st =
     generateObject T (st\<lparr> mSkeleton := skeleton, mVertices := [], mNormals := [] \<rparr>)"
  by (simp add: update_def)




section \<open>Assertions\<close>

lemma makeCell_no_assertion:
  "makeCell T st scalarField xAmount yAmount zAmount z y x \<noteq> Inl AssertionFailed"
  unfolding makeCell_def
  by (rule for_each_no_assertion) (simp add: cornerOfCell_def Let_def)

lemma edgeVertices_no_assertion: "edgeVertices T cell \<noteq> Inl AssertionFailed"
  unfolding edgeVertices_def
  by (rule for_each_no_assertion) (simp add: edgeStep_def Let_def)

lemma triangleLoop_no_assertion:
  "triangleLoop T cell asEdgeVertex is triangles \<noteq> Inl AssertionFailed"
proof (induction "is" arbitrary: triangles)
  case Nil
  show ?case by simp
next
  case (Cons iTriangle rest)
  have "for_each [0..<3] (cornerStep T cell asEdgeVertex iTriangle) [] \<noteq> Inl AssertionFailed"
    by (rule for_each_no_assertion) (simp add: cornerStep_def Let_def split: option.splits)
  then show ?case
    using Cons.IH by (auto split: sum.splits)
qed

lemma Triangulate_no_assertion: "Triangulate T cell \<noteq> Inl AssertionFailed"
  using edgeVertices_no_assertion triangleLoop_no_assertion
  by (auto simp: Triangulate_def Let_def split: sum.splits)

lemma marchCubes_no_assertion:
  "marchCubes T scalarField xAmount yAmount zAmount s \<noteq> Inl AssertionFailed"
proof -
  have cell: "marchCell T scalarField xAmount yAmount zAmount z y x s' \<noteq> Inl AssertionFailed"
    for z y x s'
    using makeCell_no_assertion Triangulate_no_assertion
    by (auto simp: marchCell_def split: sum.splits)
  show ?thesis
    unfolding marchCubes_def
    by (intro for_each_no_assertion cell)
qed

lemma generateObject_no_assertion:
  assumes "grid_fits (mCubeSize st) (vsub (mExtendsTo st) (mExtendsFrom st))"
  shows "generateObject T st \<noteq> Inl AssertionFailed"
proof (cases "mCubeSize st < vx (mExtendsTo st) - vx (mExtendsFrom st)
            \<and> mCubeSize st < vy (mExtendsTo st) - vy (mExtendsFrom st)
            \<and> mCubeSize st < vz (mExtendsTo st) - vz (mExtendsFrom st)")
  case True
  define nx where "nx = gridAmount (vx (mExtendsTo st) - vx (mExtendsFrom st)) (mCubeSize st)"
  define ny where "ny = gridAmount (vy (mExtendsTo st) - vy (mExtendsFrom st)) (mCubeSize st)"
  define nz where "nz = gridAmount (vz (mExtendsTo st) - vz (mExtendsFrom st)) (mCubeSize st)"
  have fit: "0 \<le> nx" "0 \<le> ny" "0 \<le> nz" "(nx + 1) * (ny + 1) * (nz + 1) < 2147483648"
    using assms True by (simp_all add: grid_fits_def vsub_components nx_def ny_def nz_def)
  from generateObject_fits [OF _ _ _ nx_def ny_def nz_def fit, of T] True
  obtain S where "generateObject T st =
      (case marchCubes T S nx ny nz (st, 0) of Inl e \<Rightarrow> Inl e | Inr s \<Rightarrow> Inr (fst s))"
    by blast
  then show ?thesis
    using marchCubes_no_assertion [of T S nx ny nz "(st, 0)"]
    by (auto split: sum.splits)
next
  case False
  then have "generateObject T st = Inr st"
    by (auto simp: generateObject_def Let_def vsub_components)
  then show ?thesis by simp
qed

lemma runningBox_calculate:
  assumes "mExtendsTo st = Vector3 (- FLT_MAX) (- FLT_MAX) (- FLT_MAX)"
    and "mExtendsFrom st = Vector3 FLT_MAX FLT_MAX FLT_MAX"
  shows "vsub (mExtendsTo (foldl extendBox st skeleton)) (mExtendsFrom (foldl extendBox st skeleton))
     = runningBox skeleton"
  by (simp add: foldl_extendBox assms runningBox_def)

lemma runningBox_union:
  assumes "skeleton \<noteq> []" and "float_extents skeleton"
  shows "runningBox skeleton = vsub (unionExtendsTo skeleton) (unionExtendsFrom skeleton)"
proof -
  define st where "st = freshIsosurface\<lparr> mExtendsFrom := Vector3 FLT_MAX FLT_MAX FLT_MAX,
      mExtendsTo := Vector3 (- FLT_MAX) (- FLT_MAX) (- FLT_MAX) \<rparr>"
  have "runningBox skeleton
      = vsub (mExtendsTo (foldl extendBox st skeleton)) (mExtendsFrom (foldl extendBox st skeleton))"
    by (rule runningBox_calculate [symmetric]) (simp_all add: st_def)
  also have "foldl extendBox st skeleton =
      st\<lparr> mExtendsTo := unionExtendsTo skeleton, mExtendsFrom := unionExtendsFrom skeleton \<rparr>"
    using assms by (intro union_box) (simp_all add: st_def)
  finally show ?thesis by simp
qed

text \<open>
  C7. The claim: calculate stops at an assertion exactly when \<open>cubeSize \<le> 0\<close> or \<open>blend\<close> lies
  outside \<open>[0, NONE)\<close>, so \<open>blend = NONE\<close> stops it. The assertion of the code is
  \<open>0 \<le> blend \<and> blend \<le> NONE\<close>: with \<open>NONE = 1\<close>, the call with \<open>blend = NONE\<close>, a positive
  \<open>cubeSize\<close> and an empty skeleton returns.
\<close>

theorem calculate_accepts_NONE:
  "calculate 1 sampleTables [] 1 1 0 freshIsosurface \<noteq> Inl AssertionFailed"
  by (simp add: calculate_def)

text \<open>
  C7, amended. calculate stops at an assertion whenever \<open>cubeSize \<le> 0\<close> or \<open>blend\<close> lies
  outside \<open>[0, NONE]\<close>, the bound \<open>NONE\<close> included in the range. With a positive \<open>cubeSize\<close>,
  \<open>blend\<close> in that range and a grid that fits 32-bit \<open>int\<close>s (its three side counts and
  its number of corners), no assertion fails: neither of the two of \<open>calculate\<close>, nor
  the one of \<open>fillScalarField\<close>. For a larger grid the size of the field and the indices
  wrap around, and nothing is stated.
\<close>

theorem calculate_assertion_iff:
  "(cubeSize \<le> 0 \<or> blend < 0 \<or> int NONE < blend \<longrightarrow>
      calculate NONE T skeleton cubeSize blend targetValue st0 = Inl AssertionFailed)
   \<and> (0 < cubeSize \<and> 0 \<le> blend \<and> blend \<le> int NONE
        \<and> grid_fits cubeSize (runningBox skeleton) \<longrightarrow>
      calculate NONE T skeleton cubeSize blend targetValue st0 \<noteq> Inl AssertionFailed)"
proof (intro conjI impI)
  assume "cubeSize \<le> 0 \<or> blend < 0 \<or> int NONE < blend"
  then show "calculate NONE T skeleton cubeSize blend targetValue st0 = Inl AssertionFailed"
    by (auto simp: calculate_def Let_def)
next
  assume valid: "0 < cubeSize \<and> 0 \<le> blend \<and> blend \<le> int NONE
      \<and> grid_fits cubeSize (runningBox skeleton)"
  define st where "st = st0\<lparr> mSkeleton := skeleton, mCubeSize := cubeSize,
                      mBlendingFunction := blend, mTargetValue := targetValue,
                      mVertices := [], mNormals := [], mTriangles := [],
                      mVertexHash := Map.empty,
                      mExtendsFrom := Vector3 FLT_MAX FLT_MAX FLT_MAX,
                      mExtendsTo := Vector3 (- FLT_MAX) (- FLT_MAX) (- FLT_MAX) \<rparr>"
  let ?boxed = "foldl extendBox st skeleton"
  have "vsub (mExtendsTo ?boxed) (mExtendsFrom ?boxed) = runningBox skeleton"
    by (rule runningBox_calculate) (simp_all add: st_def)
  moreover have "mCubeSize ?boxed = cubeSize"
    by (simp add: foldl_extendBox st_def)
  ultimately have "grid_fits (mCubeSize ?boxed) (vsub (mExtendsTo ?boxed) (mExtendsFrom ?boxed))"
    using valid by simp
  then have "generateObject T ?boxed \<noteq> Inl AssertionFailed"
    by (rule generateObject_no_assertion)
  moreover have "calculate NONE T skeleton cubeSize blend targetValue st0 =
      (if skeleton \<noteq> [] then generateObject T ?boxed else Inr st)"
    using valid by (auto simp: calculate_def st_def Let_def)
  ultimately show "calculate NONE T skeleton cubeSize blend targetValue st0 \<noteq> Inl AssertionFailed"
    by auto
qed

theorem calculate_assertion_iff_witness:
  "calculate 1 sampleTables [SphereNode (Vector3 0 0 0) 1] 0 0 (1/1000) freshIsosurface
     = Inl AssertionFailed
   \<and> grid_fits (3/2) (runningBox [SphereNode (Vector3 0 0 0) 1])
   \<and> calculate 1 sampleTables [SphereNode (Vector3 0 0 0) 1] (3/2) 0 (1/1000) freshIsosurface
     \<noteq> Inl AssertionFailed"
proof -
  have box: "runningBox [SphereNode (Vector3 0 0 0) 1] = Vector3 2 2 2"
    by (simp add: runningBox_def SphereNode_fields FLT_MAX_def)
  have fits: "grid_fits (3/2) (runningBox [SphereNode (Vector3 0 0 0) 1])"
    unfolding box by (simp add: grid_fits_def gridAmount_run)
  show ?thesis
    using fits
      calculate_assertion_iff [of 0 0 1 sampleTables "[SphereNode (Vector3 0 0 0) 1]"
        "1/1000" freshIsosurface]
      calculate_assertion_iff [of "3/2" 0 1 sampleTables "[SphereNode (Vector3 0 0 0) 1]"
        "1/1000" freshIsosurface]
    by simp
qed

section \<open>Triangulate\<close>

lemma map_upt_update:
  assumes "k < n"
  shows "(map f [0..<n])[k := v] = map (f(k := v)) [0..<n]"
  using assms by (auto simp: list_eq_iff_nth_eq nth_list_update)

lemma edgeStep_edgePoint:
  assumes "edges_fit T" and "e < 12"
  shows "edgeStep T cell e asEdgeVertex =
     Inr (if (iEdgeFlags cell AND push_bit e 1) \<noteq> 0
          then asEdgeVertex[e := Some (edgePoint T cell e)] else asEdgeVertex)"
proof -
  have "0 \<le> a2iEdgeConnection T e 0 \<and> a2iEdgeConnection T e 0 < 8
      \<and> 0 \<le> a2iEdgeConnection T e 1 \<and> a2iEdgeConnection T e 1 < 8"
    using assms by (simp add: edges_fit_def list_all_iff)
  then show ?thesis
    by (simp add: edgeStep_def edgePoint_def Let_def add.commute)
qed

lemma edgeVertices_prefix:
  assumes "edges_fit T" and "k \<le> 12"
  shows "for_each [0..<k] (edgeStep T cell) (replicate 12 None) =
     Inr (map (\<lambda>e. if e < k \<and> (iEdgeFlags cell AND push_bit e 1) \<noteq> 0
                    then Some (edgePoint T cell e) else None) [0..<12])"
  using assms(2)
proof (induction k)
  case 0
  show ?case by (simp add: list_eq_iff_nth_eq)
next
  case (Suc k)
  let ?g = "\<lambda>k e. if e < k \<and> (iEdgeFlags cell AND push_bit e 1) \<noteq> 0
                    then Some (edgePoint T cell e) else None"
  have k: "k < 12" using Suc.prems by simp
  have upd: "(if (iEdgeFlags cell AND push_bit k 1) \<noteq> 0
              then (map (?g k) [0..<12])[k := Some (edgePoint T cell k)]
              else map (?g k) [0..<12]) = map (?g (Suc k)) [0..<12]"
    using k by (auto simp: map_upt_update less_Suc_eq)
  have "for_each [0..<Suc k] (edgeStep T cell) (replicate 12 None)
      = edgeStep T cell k (map (?g k) [0..<12])"
    using Suc.IH k by (simp add: for_each_append split: sum.splits)
  then show ?case
    by (simp only: edgeStep_edgePoint [OF assms(1) k] upd)
qed

lemma edgeVertices_edgePoint:
  assumes "edges_fit T"
  shows "edgeVertices T cell =
     Inr (map (\<lambda>e. if (iEdgeFlags cell AND push_bit e 1) \<noteq> 0
                    then Some (edgePoint T cell e) else None) [0..<12])"
proof -
  have "map (\<lambda>e. if e < 12 \<and> (iEdgeFlags cell AND push_bit e 1) \<noteq> 0
                    then Some (edgePoint T cell e) else None) [0..<12]
      = map (\<lambda>e. if (iEdgeFlags cell AND push_bit e 1) \<noteq> 0
                    then Some (edgePoint T cell e) else None) [0..<12]"
    by simp
  then show ?thesis
    unfolding edgeVertices_def using edgeVertices_prefix [OF assms, of 12 cell] by simp
qed

lemma corners_of_triple:
  assumes fit: "list_all (\<lambda>j. 0 \<le> a2iTriangleConnectionTable T (nat (iFlagIndex cell)) (3 * i + j)
                      \<and> a2iTriangleConnectionTable T (nat (iFlagIndex cell)) (3 * i + j) < 12
                      \<and> (iEdgeFlags cell
                            AND push_bit (nat (a2iTriangleConnectionTable T (nat (iFlagIndex cell))
                                   (3 * i + j))) 1) \<noteq> 0) [0..<3]"
    and ev: "asEdgeVertex = map (\<lambda>e. if (iEdgeFlags cell AND push_bit e 1) \<noteq> 0
                    then Some (edgePoint T cell0 e) else None) [0..<12]"
  shows "for_each [0..<3] (cornerStep T cell asEdgeVertex i) [] =
     Inr (map (\<lambda>j. edgePoint T cell0
            (nat (a2iTriangleConnectionTable T (nat (iFlagIndex cell)) (3 * i + j)))) [0..<3])"
proof -
  let ?row = "a2iTriangleConnectionTable T (nat (iFlagIndex cell))"
  have one: "cornerStep T cell asEdgeVertex i j tri
      = Inr (tri @ [edgePoint T cell0 (nat (?row (3 * i + j)))])" if "j < 3" for j tri
  proof -
    have v: "0 \<le> ?row (3 * i + j)" "?row (3 * i + j) < 12"
        "(iEdgeFlags cell AND push_bit (nat (?row (3 * i + j))) 1) \<noteq> 0"
      using fit that by (simp_all add: list_all_iff)
    then have "nat (?row (3 * i + j)) < 12" by simp
    then have "asEdgeVertex ! nat (?row (3 * i + j))
        = Some (edgePoint T cell0 (nat (?row (3 * i + j))))"
      using v(3) by (simp add: ev)
    then show ?thesis
      using v(1,2) by (simp add: cornerStep_def Let_def)
  qed
  show ?thesis
    by (simp add: upt_literals one)
qed

lemma triangleLoop_takeWhile:
  assumes "list_all (triple_fits T (nat (iFlagIndex cell))) is"
    and "iEdgeFlags cell = aiCubeEdgeFlags T (nat (iFlagIndex cell))"
    and "asEdgeVertex = map (\<lambda>e. if (iEdgeFlags cell AND push_bit e 1) \<noteq> 0
                    then Some (edgePoint T cell0 e) else None) [0..<12]"
  shows "triangleLoop T cell asEdgeVertex is triangles =
     Inr (triangles @
       map (\<lambda>i. map (\<lambda>j. edgePoint T cell0
              (nat (a2iTriangleConnectionTable T (nat (iFlagIndex cell)) (3 * i + j)))) [0..<3])
         (takeWhile (\<lambda>i. a2iTriangleConnectionTable T (nat (iFlagIndex cell)) (3 * i) \<noteq> -1) is))"
  using assms(1)
proof (induction "is" arbitrary: triangles)
  case Nil
  show ?case by simp
next
  case (Cons i rest)
  let ?row = "a2iTriangleConnectionTable T (nat (iFlagIndex cell))"
  show ?case
  proof (cases "?row (3 * i) = -1")
    case True
    then show ?thesis by simp
  next
    case False
    then have fit: "list_all (\<lambda>j. 0 \<le> ?row (3 * i + j) \<and> ?row (3 * i + j) < 12
        \<and> (iEdgeFlags cell AND push_bit (nat (?row (3 * i + j))) 1) \<noteq> 0) [0..<3]"
      using Cons.prems by (simp add: triple_fits_def assms(2))
    then have "0 \<le> ?row (3 * i + 0)"
      unfolding list_all_iff by (metis atLeastLessThan_iff set_upt zero_le zero_less_numeral)
    then have nonneg: "\<not> ?row (3 * i) < 0" by simp
    have rest: "list_all (triple_fits T (nat (iFlagIndex cell))) rest"
      using Cons.prems by simp
    show ?thesis
      using False nonneg
      by (simp add: corners_of_triple [OF fit assms(3)] Cons.IH [OF rest])
  qed
qed

text \<open>
  C4. For a cell and tables of the expected format, \<open>Triangulate\<close> looks up the edge flags
  of the cell's classification; when they are zero it returns no triangle. Otherwise the
  slot of every edge whose bit is set holds the point \<open>p[p1] + t \<cdot> (p[p2] - p[p1])\<close> with
  \<open>t = val[p1] / (val[p1] + val[p2])\<close>, and the triangles are the triples of the
  classification's row up to the first triple that starts with \<open>-1\<close>, each corner the
  point of the edge named: at most five triangles.
\<close>

theorem Triangulate_triangles:
  assumes "edges_fit T" and "row_fits T (nat (iFlagIndex cell))"
  shows "edgeVertices T (cell\<lparr>iEdgeFlags := aiCubeEdgeFlags T (nat (iFlagIndex cell))\<rparr>)
       = Inr (map (\<lambda>e. if (aiCubeEdgeFlags T (nat (iFlagIndex cell)) AND push_bit e 1) \<noteq> 0
                       then Some (edgePoint T cell e) else None) [0..<12])
     \<and> Triangulate T cell =
         Inr (if aiCubeEdgeFlags T (nat (iFlagIndex cell)) = 0 then []
              else map (\<lambda>i. map (\<lambda>j. edgePoint T cell
                       (nat (a2iTriangleConnectionTable T (nat (iFlagIndex cell)) (3 * i + j))))
                     [0..<3])
                   (takeWhile
                     (\<lambda>i. a2iTriangleConnectionTable T (nat (iFlagIndex cell)) (3 * i) \<noteq> -1)
                     [0..<5]))
     \<and> (\<exists>triangles. Triangulate T cell = Inr triangles \<and> length triangles \<le> 5)"
proof -
  let ?cell = "cell\<lparr>iEdgeFlags := aiCubeEdgeFlags T (nat (iFlagIndex cell))\<rparr>"
  let ?tris = "map (\<lambda>i. map (\<lambda>j. edgePoint T cell
                       (nat (a2iTriangleConnectionTable T (nat (iFlagIndex cell)) (3 * i + j))))
                     [0..<3])
                   (takeWhile
                     (\<lambda>i. a2iTriangleConnectionTable T (nat (iFlagIndex cell)) (3 * i) \<noteq> -1)
                     [0..<5])"
  have same: "edgePoint T ?cell e = edgePoint T cell e" for e
    by (simp add: edgePoint_def)
  have ev: "edgeVertices T ?cell
       = Inr (map (\<lambda>e. if (aiCubeEdgeFlags T (nat (iFlagIndex cell)) AND push_bit e 1) \<noteq> 0
                       then Some (edgePoint T cell e) else None) [0..<12])"
    using edgeVertices_edgePoint [OF assms(1), of ?cell] by (simp add: same)
  have loop: "triangleLoop T ?cell
      (map (\<lambda>e. if (aiCubeEdgeFlags T (nat (iFlagIndex cell)) AND push_bit e 1) \<noteq> 0
                       then Some (edgePoint T cell e) else None) [0..<12]) [0..<5] [] = Inr ?tris"
    using triangleLoop_takeWhile [of T ?cell "[0..<5]" _ cell "[]"] assms(2)
    by (simp add: row_fits_def)
  have tri: "Triangulate T cell =
      Inr (if aiCubeEdgeFlags T (nat (iFlagIndex cell)) = 0 then [] else ?tris)"
    using ev loop by (simp add: Triangulate_def Let_def)
  have "length ?tris \<le> length [0..<5::nat]"
    unfolding length_map by (rule length_takeWhile_le)
  then have "length (if aiCubeEdgeFlags T (nat (iFlagIndex cell)) = 0 then [] else ?tris) \<le> 5"
    by simp
  then show ?thesis
    using ev tri by blast
qed

theorem Triangulate_triangles_witness:
  "edges_fit sampleTables \<and> row_fits sampleTables 254
   \<and> Triangulate sampleTables
        \<lparr> cell_p = [Vector3 (1/2) (1/2) (1/2), Vector3 2 (1/2) (1/2), Vector3 2 2 (1/2),
                    Vector3 (1/2) 2 (1/2), Vector3 (1/2) (1/2) 2, Vector3 2 (1/2) 2,
                    Vector3 2 2 2, Vector3 (1/2) 2 2],
          cell_val = [1/136, 0, 0, 0, 0, 0, 0, 0],
          iFlagIndex = 254, iEdgeFlags = 0 \<rparr>
      = Inr [[Vector3 2 (1/2) (1/2), Vector3 (1/2) 2 (1/2), Vector3 (1/2) (1/2) 2]]"
proof -
  define cell where "cell =
        \<lparr> cell_p = [Vector3 (1/2) (1/2) (1/2), Vector3 2 (1/2) (1/2), Vector3 2 2 (1/2),
                    Vector3 (1/2) 2 (1/2), Vector3 (1/2) (1/2) 2, Vector3 2 (1/2) 2,
                    Vector3 2 2 2, Vector3 (1/2) 2 2],
          cell_val = [1/136, 0, 0, 0, 0, 0, 0, 0],
          iFlagIndex = 254, iEdgeFlags = 0 \<rparr>"
  have e: "edges_fit sampleTables"
    by (simp add: edges_fit_def sampleTables_def classicTables_def upt_literals)
  have r: "row_fits sampleTables (nat (iFlagIndex cell))"
    by (simp add: row_fits_def triple_fits_def sampleTables_def classicTables_def upt_literals
        replicate_literals cell_def)
  have "Triangulate sampleTables cell
      = Inr [[Vector3 2 (1/2) (1/2), Vector3 (1/2) 2 (1/2), Vector3 (1/2) (1/2) 2]]"
    using Triangulate_triangles [OF e r]
    by (simp add: cell_def sampleTables_def classicTables_def upt_literals replicate_literals
        edgePoint_def)
  then show ?thesis
    using e r by (simp add: cell_def)
qed

section \<open>The mesh after calculate\<close>

lemma for_each_invariant:
  assumes "for_each xs body s = Inr s'" and "P s"
    and "\<And>i t t'. P t \<Longrightarrow> body i t = Inr t' \<Longrightarrow> P t'"
  shows "P s'"
  using assms(1,2)
proof (induction xs arbitrary: s)
  case Nil
  then show ?case by simp
next
  case (Cons i rest)
  then obtain t where t: "body i s = Inr t" "for_each rest body t = Inr s'"
    by (auto split: sum.splits)
  then have "P t" using assms(3) Cons.prems(2) by blast
  then show ?case using Cons.IH t(2) by blast
qed

lemma addCorner_buffers_ok:
  assumes "buffers_ok s" and "list_all (\<lambda>i. 0 \<le> i \<and> i < snd s) tri"
    and "addCorner v (s, tri) = (s', tri')"
  shows "buffers_ok s' \<and> list_all (\<lambda>i. 0 \<le> i \<and> i < snd s') tri' \<and> snd s \<le> snd s'"
proof (cases s)
  case (Pair st k)
  show ?thesis
  proof (cases "mVertexHash st v")
    case None
    then have new: "v \<notin> set (mVertices st)"
      using assms(1) Pair by (auto simp: buffers_ok_def)
    have s': "s' = (st\<lparr> mVertexHash := (mVertexHash st)(v \<mapsto> k),
                         mVertices := mVertices st @ [v],
                         mNormals := mNormals st @ [getNormal (mSkeleton st) (mCubeSize st) v] \<rparr>,
                     k + 1)" and tri': "tri' = tri @ [k]"
      using assms(3) Pair None by (simp_all add: addCorner_def)
    have k: "k = int (length (mVertices st))"
      using assms(1) Pair by (simp add: buffers_ok_def)
    have inv: "length (mNormals st) = length (mVertices st)" "distinct (mVertices st)"
        "dom (mVertexHash st) = set (mVertices st)"
        "\<forall>v i. mVertexHash st v = Some i \<longrightarrow> 0 \<le> i \<and> i < k"
        "list_all (list_all (\<lambda>i. 0 \<le> i \<and> i < k)) (mTriangles st)"
      using assms(1) unfolding Pair buffers_ok_def prod.case k [symmetric] by blast+
    have tris: "list_all (list_all (\<lambda>i. 0 \<le> i \<and> i < k + 1)) (mTriangles st)"
      using inv(5) by (fastforce simp: list_all_iff)
    have old: "list_all (\<lambda>i. 0 \<le> i \<and> i < k + 1) tri"
      using assms(2) Pair by (fastforce simp: list_all_iff)
    have hash: "\<forall>v' i. ((mVertexHash st)(v \<mapsto> k)) v' = Some i \<longrightarrow> 0 \<le> i \<and> i < k + 1"
      using inv(4) k by (fastforce split: if_splits)
    have "buffers_ok s'"
      unfolding s' buffers_ok_def using k inv(1-3) new tris hash by simp
    then show ?thesis
      using old k Pair by (simp add: s' tri')
  next
    case (Some idx)
    then have "s' = s" and "tri' = tri @ [idx]"
      using assms(3) Pair by (simp_all add: addCorner_def)
    moreover have "0 \<le> idx \<and> idx < k"
      using assms(1) Pair Some by (auto simp: buffers_ok_def)
    ultimately show ?thesis
      using assms(1,2) Pair by simp
  qed
qed

lemma addCorners_buffers_ok:
  assumes "buffers_ok s" and "list_all (\<lambda>i. 0 \<le> i \<and> i < snd s) tri"
    and "foldl (\<lambda>acc v. addCorner v acc) (s, tri) vs = (s', tri')"
  shows "buffers_ok s' \<and> list_all (\<lambda>i. 0 \<le> i \<and> i < snd s') tri'"
  using assms
proof (induction vs arbitrary: s tri)
  case Nil
  then show ?case by simp
next
  case (Cons v vs)
  obtain s1 tri1 where one: "addCorner v (s, tri) = (s1, tri1)"
    by (cases "addCorner v (s, tri)")
  from addCorner_buffers_ok [OF Cons.prems(1,2) one]
  have "buffers_ok s1" "list_all (\<lambda>i. 0 \<le> i \<and> i < snd s1) tri1" by simp_all
  then show ?case
    using Cons.IH [of s1 tri1] Cons.prems(3) one by simp
qed

lemma addTriangle_buffers_ok:
  assumes "buffers_ok s"
  shows "buffers_ok (addTriangle tri s)"
proof -
  obtain st k indexedTriangle
    where run: "foldl (\<lambda>acc v. addCorner v acc) (s, []) tri = ((st, k), indexedTriangle)"
    by (metis surj_pair)
  from addCorners_buffers_ok [OF assms _ run]
  have "buffers_ok (st, k)" "list_all (\<lambda>i. 0 \<le> i \<and> i < k) indexedTriangle"
    by simp_all
  then have "buffers_ok (st\<lparr> mTriangles := mTriangles st @ [indexedTriangle] \<rparr>, k)"
    unfolding buffers_ok_def by auto
  then show ?thesis
    by (simp add: addTriangle_def run)
qed

lemma addTriangles_buffers_ok:
  "buffers_ok s \<Longrightarrow> buffers_ok (foldl (\<lambda>acc tri. addTriangle tri acc) s triangles)"
  by (induction triangles arbitrary: s) (simp_all add: addTriangle_buffers_ok)

lemma marchCubes_buffers_ok:
  assumes "marchCubes T scalarField xAmount yAmount zAmount s = Inr s'" and "buffers_ok s"
  shows "buffers_ok s'"
proof -
  have cell: "buffers_ok t'"
    if "buffers_ok t" "marchCell T scalarField xAmount yAmount zAmount z y x t = Inr t'"
    for z y x t t'
    using that by (auto simp: marchCell_def addTriangles_buffers_ok split: sum.splits)
  have row: "buffers_ok t'"
    if "buffers_ok t"
      "for_each [0..<nat xAmount] (marchCell T scalarField xAmount yAmount zAmount z y) t = Inr t'"
    for z y t t'
    using for_each_invariant [where P = buffers_ok, OF that(2,1)] cell by blast
  have slab: "buffers_ok t'"
    if "buffers_ok t"
      "for_each [0..<nat yAmount] (\<lambda>y. for_each [0..<nat xAmount]
          (marchCell T scalarField xAmount yAmount zAmount z y)) t = Inr t'"
    for z t t'
    using for_each_invariant [where P = buffers_ok, OF that(2,1)] row by blast
  show ?thesis
    using for_each_invariant [where P = buffers_ok, OF assms [unfolded marchCubes_def]] slab by blast
qed

lemma generateObject_Inr:
  assumes "generateObject T st = Inr st'"
  shows "st' = st \<or> (\<exists>S nx ny nz s. marchCubes T S nx ny nz (st, 0) = Inr s \<and> st' = fst s)"
proof (cases "mCubeSize st < vx (vsub (mExtendsTo st) (mExtendsFrom st))
            \<and> mCubeSize st < vy (vsub (mExtendsTo st) (mExtendsFrom st))
            \<and> mCubeSize st < vz (vsub (mExtendsTo st) (mExtendsFrom st))")
  case False
  then have "generateObject T st = Inr st"
    unfolding generateObject_def Let_def by (simp only: if_False)
  then show ?thesis using assms by simp
next
  case True
  define nx where "nx = gridAmount (vx (vsub (mExtendsTo st) (mExtendsFrom st))) (mCubeSize st)"
  define ny where "ny = gridAmount (vy (vsub (mExtendsTo st) (mExtendsFrom st))) (mCubeSize st)"
  define nz where "nz = gridAmount (vz (vsub (mExtendsTo st) (mExtendsFrom st))) (mCubeSize st)"
  define S0 where "S0 = replicate (nat (fieldSize nx ny nz)) (-1 :: real)"
  have gen: "generateObject T st =
      (if fieldSize nx ny nz < 0 then Inl LengthError
       else case fillScalarField (mSkeleton st) (mExtendsFrom st) (mCubeSize st) S0 nx ny nz of
              Inl e \<Rightarrow> Inl e
            | Inr S \<Rightarrow> (case marchCubes T S nx ny nz (st, 0) of
                          Inl e \<Rightarrow> Inl e | Inr s \<Rightarrow> Inr (fst s)))"
    unfolding generateObject_def Let_def nx_def ny_def nz_def S0_def
    using True by (simp only: if_True simp_thms)
  show ?thesis
  proof (cases "fillScalarField (mSkeleton st) (mExtendsFrom st) (mCubeSize st) S0 nx ny nz")
    case (Inl e)
    then show ?thesis using assms gen by (simp split: if_splits)
  next
    case (Inr S)
    then show ?thesis
      using assms gen by (cases "marchCubes T S nx ny nz (st, 0)") (auto split: if_splits)
  qed
qed

lemma calculate_mesh_ok:
  assumes "calculate NONE T skeleton cubeSize blend targetValue st0 = Inr st"
  shows "mesh_ok st"
proof -
  define cleared where "cleared = st0\<lparr> mSkeleton := skeleton, mCubeSize := cubeSize,
                      mBlendingFunction := blend, mTargetValue := targetValue,
                      mVertices := [], mNormals := [], mTriangles := [],
                      mVertexHash := Map.empty,
                      mExtendsFrom := Vector3 FLT_MAX FLT_MAX FLT_MAX,
                      mExtendsTo := Vector3 (- FLT_MAX) (- FLT_MAX) (- FLT_MAX) \<rparr>"
  define boxed where "boxed = foldl extendBox cleared skeleton"
  have start: "buffers_ok (boxed, 0)" "mesh_ok boxed" "mesh_ok cleared"
    by (simp_all add: boxed_def foldl_extendBox cleared_def buffers_ok_def mesh_ok_def)
  have gen: "mesh_ok st'" if "generateObject T boxed = Inr st'" for st'
    using generateObject_Inr [OF that]
  proof
    assume "st' = boxed"
    then show ?thesis using start(2) by simp
  next
    assume "\<exists>S nx ny nz s. marchCubes T S nx ny nz (boxed, 0) = Inr s \<and> st' = fst s"
    then obtain S nx ny nz s where "marchCubes T S nx ny nz (boxed, 0) = Inr s" "st' = fst s"
      by blast
    then have "buffers_ok (st', snd s)"
      using marchCubes_buffers_ok [OF _ start(1)] by (metis prod.collapse)
    then have "snd s = int (length (mVertices st'))"
        "length (mNormals st') = length (mVertices st')" "distinct (mVertices st')"
        "list_all (list_all (\<lambda>i. 0 \<le> i \<and> i < snd s)) (mTriangles st')"
      unfolding buffers_ok_def prod.case by blast+
    then show ?thesis
      by (simp add: mesh_ok_def)
  qed
  have "calculate NONE T skeleton cubeSize blend targetValue st0 = Inr st
      \<Longrightarrow> st = cleared \<or> generateObject T boxed = Inr st"
    by (auto simp: calculate_def Let_def cleared_def boxed_def split: if_splits)
  then show ?thesis
    using assms gen start(3) by blast
qed

lemma calculate_empty_skeleton:
  assumes "0 < cubeSize" and "0 \<le> blend" and "blend \<le> int NONE"
  shows "\<exists>st. calculate NONE T [] cubeSize blend targetValue st0 = Inr st
           \<and> mVertices st = [] \<and> mNormals st = [] \<and> mTriangles st = []"
  using assms by (simp add: calculate_def)

lemma addCorners_mTriangles:
  "mTriangles (fst (fst (foldl (\<lambda>acc v. addCorner v acc) (s, tri) vs))) = mTriangles (fst s)"
proof (induction vs arbitrary: s tri)
  case Nil
  show ?case by simp
next
  case (Cons v vs)
  obtain s1 tri1 where one: "addCorner v (s, tri) = (s1, tri1)"
    by (cases "addCorner v (s, tri)")
  then have "mTriangles (fst s1) = mTriangles (fst s)"
    by (cases s) (auto simp: addCorner_def split: option.splits)
  then show ?case
    using Cons.IH [of s1 tri1] one by simp
qed

lemma addTriangle_appends:
  "\<exists>t. mTriangles (fst (addTriangle tri s)) = mTriangles (fst s) @ [t]"
proof -
  obtain st k indexedTriangle
    where run: "foldl (\<lambda>acc v. addCorner v acc) (s, []) tri = ((st, k), indexedTriangle)"
    by (metis surj_pair)
  have "mTriangles st = mTriangles (fst s)"
    using addCorners_mTriangles [of s "[]" tri] by (simp add: run)
  then show ?thesis
    by (simp add: addTriangle_def run)
qed

lemma addTriangles_extend:
  "\<exists>ts. mTriangles (fst (foldl (\<lambda>acc tri. addTriangle tri acc) s triangles))
          = mTriangles (fst s) @ ts"
proof (induction triangles arbitrary: s)
  case Nil
  show ?case by simp
next
  case (Cons tri triangles)
  obtain t where "mTriangles (fst (addTriangle tri s)) = mTriangles (fst s) @ [t]"
    using addTriangle_appends by blast
  then show ?case
    using Cons.IH [of "addTriangle tri s"] by auto
qed

lemma marchCubes_extends_triangles:
  assumes "marchCubes T scalarField xAmount yAmount zAmount s = Inr s'"
  shows "\<exists>ts. mTriangles (fst s') = mTriangles (fst s) @ ts"
proof -
  let ?P = "\<lambda>t. \<exists>ts. mTriangles (fst t) = mTriangles (fst s) @ ts"
  have cell: "?P t'"
    if before: "?P t" and step: "marchCell T scalarField xAmount yAmount zAmount z y x t = Inr t'"
    for z y x t t'
  proof -
    obtain triangles where "t' = foldl (\<lambda>acc tri. addTriangle tri acc) t triangles"
      using step by (auto simp: marchCell_def split: sum.splits)
    then show ?thesis
      using before addTriangles_extend [of t triangles] by auto
  qed
  have row: "?P t'"
    if "?P t"
      "for_each [0..<nat xAmount] (marchCell T scalarField xAmount yAmount zAmount z y) t = Inr t'"
    for z y t t'
    using for_each_invariant [where P = ?P, OF that(2,1)] cell by blast
  have slab: "?P t'"
    if "?P t"
      "for_each [0..<nat yAmount] (\<lambda>y. for_each [0..<nat xAmount]
          (marchCell T scalarField xAmount yAmount zAmount z y)) t = Inr t'"
    for z t t'
    using for_each_invariant [where P = ?P, OF that(2,1)] row by blast
  have "?P s" by simp
  then show ?thesis
    using for_each_invariant [where P = ?P, OF assms [unfolded marchCubes_def]] slab by blast
qed

lemma update_keeps_triangles:
  assumes "update T skeleton st = Inr st'"
  shows "\<exists>ts. mTriangles st' = mTriangles st @ ts"
  using generateObject_Inr [OF assms [unfolded update_def]]
proof
  assume "st' = st\<lparr>mSkeleton := skeleton, mVertices := [], mNormals := []\<rparr>"
  then show ?thesis by simp
next
  assume "\<exists>S nx ny nz s. marchCubes T S nx ny nz
      (st\<lparr>mSkeleton := skeleton, mVertices := [], mNormals := []\<rparr>, 0) = Inr s \<and> st' = fst s"
  then show ?thesis
    using marchCubes_extends_triangles by fastforce
qed

end
